theory Spec2Isabelle
  imports Main
begin

section \<open>Program tables (PrtProgram.h)\<close>

text \<open>
  The C structures of \<^verbatim>\<open>PrtProgram.h\<close> become records. The tables \<^verbatim>\<open>events\<close>,
  \<^verbatim>\<open>machines\<close> and \<^verbatim>\<open>foreignTypes\<close> of a program are arrays of pointers to
  declarations, each with its element count. The functions that only read a program see
  it through these pointers: for them the program is the record \<open>PRT_PROGRAMDECL\<close>
  below, whose tables are the lists of the declarations pointed to, the counts being the
  lengths of the lists (so is \<^verbatim>\<open>states\<close>/\<^verbatim>\<open>nStates\<close>, an array of structures).
  \<^verbatim>\<open>PrtInitialize\<close> writes through the pointers; it is modelled on the memory that
  holds the declarations and the tables of pointers (\<open>PRT_PROGRAM_MEMORY\<close> below), where
  one declaration can stand at several positions of a table.
  The two index tables \<^verbatim>\<open>linkMap\<close> and \<^verbatim>\<open>machineDefMap\<close> carry no size in the C
  structure; they are total lookup functions on symbolic names.
  Record fields are global names, so the fields that several C structures
  share (\<^verbatim>\<open>declIndex\<close>, \<^verbatim>\<open>name\<close>) carry a prefix.
  \<^verbatim>\<open>PRT_UINT32\<close> values are natural numbers: no operation of the modelled functions can
  wrap around (the only subtraction, \<^verbatim>\<open>machineId - 1\<close>, is guarded by \<^verbatim>\<open>0 < machineId\<close>).
\<close>

type_synonym addr = nat

text \<open>Modelled from the spec: \<^verbatim>\<open>PRT_TYPE\<close> (PrtTypes.h is missing); an opaque type
  expression, identified by a number.\<close>

datatype PRT_TYPE = PrtType nat

record PRT_EVENTDECL =
  ev_declIndex :: nat
  ev_name :: string
  eventMaxInstances :: nat
  ev_type :: PRT_TYPE

text \<open>Modelled from the spec: \<^verbatim>\<open>PRT_FOREIGNTYPEDECL\<close> (PrtTypes.h is missing); only the
  field \<^verbatim>\<open>declIndex\<close> is used by the core.\<close>

record PRT_FOREIGNTYPEDECL =
  ft_declIndex :: nat
  ft_name :: string

record PRT_FUNDECL =
  fun_name :: string
  numParameters :: nat
  maxNumLocals :: nat
  payloadType :: "PRT_TYPE option"  \<comment> \<open>\<^verbatim>\<open>NULL\<close> for named functions\<close>

record PRT_STATEDECL =
  st_name :: string
  entryFun :: PRT_FUNDECL
  exitFun :: PRT_FUNDECL

record PRT_MACHINEDECL =
  m_declIndex :: nat
  m_name :: string
  maxQueueSize :: nat
  initStateIndex :: nat
  states :: "PRT_STATEDECL list"

record PRT_PROGRAMDECL =
  events :: "PRT_EVENTDECL list"
  machines :: "PRT_MACHINEDECL list"
  foreignTypes :: "PRT_FOREIGNTYPEDECL list"
  linkMap :: "nat \<Rightarrow> nat \<Rightarrow> nat"
  machineDefMap :: "nat \<Rightarrow> nat"

definition nEvents :: "PRT_PROGRAMDECL \<Rightarrow> nat" where
  "nEvents p = length (events p)"

definition nMachines :: "PRT_PROGRAMDECL \<Rightarrow> nat" where
  "nMachines p = length (machines p)"

definition nForeignTypes :: "PRT_PROGRAMDECL \<Rightarrow> nat" where
  "nForeignTypes p = length (foreignTypes p)"

section \<open>PrtInitialize\<close>

text \<open>
  The memory of a program: the three tables of pointers (\<^verbatim>\<open>PRT_EVENTDECL **\<close>,
  \<^verbatim>\<open>PRT_MACHINEDECL **\<close>, \<^verbatim>\<open>PRT_FOREIGNTYPEDECL **\<close>), an address being a number, and
  the declarations stored at the addresses. Every address holds a declaration: the type
  has no null and no dangling pointer. \<open>program_of\<close> is the program as its readers see
  it, every pointer followed.
\<close>

record PRT_PROGRAM_MEMORY =
  eventTable :: "addr list"
  machineTable :: "addr list"
  foreignTypeTable :: "addr list"
  eventObjects :: "addr \<Rightarrow> PRT_EVENTDECL"
  machineObjects :: "addr \<Rightarrow> PRT_MACHINEDECL"
  foreignTypeObjects :: "addr \<Rightarrow> PRT_FOREIGNTYPEDECL"
  mem_linkMap :: "nat \<Rightarrow> nat \<Rightarrow> nat"
  mem_machineDefMap :: "nat \<Rightarrow> nat"

definition program_of :: "PRT_PROGRAM_MEMORY \<Rightarrow> PRT_PROGRAMDECL" where
  "program_of m =
     \<lparr>events = map (eventObjects m) (eventTable m),
      machines = map (machineObjects m) (machineTable m),
      foreignTypes = map (foreignTypeObjects m) (foreignTypeTable m),
      linkMap = mem_linkMap m,
      machineDefMap = mem_machineDefMap m\<rparr>"

text \<open>
  The two globals written by \<^verbatim>\<open>PrtInitialize\<close>; \<^verbatim>\<open>prtForeignTypeDecls\<close> is the
  program's own table of pointers.
\<close>

record prt_globals =
  prtNumForeignTypeDecls :: nat
  prtForeignTypeDecls :: "addr list"

text \<open>
  The three \<^verbatim>\<open>for\<close> loops, each a recursion on the loop variable \<open>i\<close>:
  \<^verbatim>\<open>program->events[i]->declIndex = i\<close> writes the field of the declaration that entry
  \<open>i\<close> of the table points to.
\<close>

function init_events :: "nat \<Rightarrow> addr list \<Rightarrow> (addr \<Rightarrow> PRT_EVENTDECL) \<Rightarrow> (addr \<Rightarrow> PRT_EVENTDECL)" where
  "init_events i tbl objs =
     (if i < length tbl
      then init_events (i + 1) tbl (objs((tbl ! i) := (objs (tbl ! i))\<lparr>ev_declIndex := i\<rparr>))
      else objs)"
  by pat_completeness auto
termination
  by (relation "measure (\<lambda>(i, tbl, objs). length tbl - i)") auto

function init_machines ::
  "nat \<Rightarrow> addr list \<Rightarrow> (addr \<Rightarrow> PRT_MACHINEDECL) \<Rightarrow> (addr \<Rightarrow> PRT_MACHINEDECL)" where
  "init_machines i tbl objs =
     (if i < length tbl
      then init_machines (i + 1) tbl (objs((tbl ! i) := (objs (tbl ! i))\<lparr>m_declIndex := i\<rparr>))
      else objs)"
  by pat_completeness auto
termination
  by (relation "measure (\<lambda>(i, tbl, objs). length tbl - i)") auto

function init_foreignTypes ::
  "nat \<Rightarrow> addr list \<Rightarrow> (addr \<Rightarrow> PRT_FOREIGNTYPEDECL) \<Rightarrow> (addr \<Rightarrow> PRT_FOREIGNTYPEDECL)" where
  "init_foreignTypes i tbl objs =
     (if i < length tbl
      then init_foreignTypes (i + 1) tbl (objs((tbl ! i) := (objs (tbl ! i))\<lparr>ft_declIndex := i\<rparr>))
      else objs)"
  by pat_completeness auto
termination
  by (relation "measure (\<lambda>(i, tbl, objs). length tbl - i)") auto

definition PrtInitialize :: "PRT_PROGRAM_MEMORY \<Rightarrow> PRT_PROGRAM_MEMORY \<times> prt_globals" where
  "PrtInitialize program =
     (program\<lparr>eventObjects := init_events 0 (eventTable program) (eventObjects program),
               machineObjects := init_machines 0 (machineTable program) (machineObjects program),
               foreignTypeObjects :=
                 init_foreignTypes 0 (foreignTypeTable program) (foreignTypeObjects program)\<rparr>,
      \<lparr>prtNumForeignTypeDecls = length (foreignTypeTable program),
       prtForeignTypeDecls = foreignTypeTable program\<rparr>)"

section \<open>Values and the store\<close>

text \<open>Modelled from the spec: \<^verbatim>\<open>PRT_GUID\<close>, \<^verbatim>\<open>PRT_VALUE\<close> and \<^verbatim>\<open>PRT_MACHINEID\<close>
  (PrtValues.h is missing). A value is a tagged tree; the kinds the core looks at are the
  null value, the machine id (process GUID and 1-based machine number) and the tuple
  (its type and its elements).\<close>

type_synonym PRT_GUID = nat

datatype PRT_VALUE =
    NullValue
  | BoolValue bool
  | IntValue int
  | EventValue nat
  | MidValue (processId: PRT_GUID) (machineId: nat)
  | TupleValue PRT_TYPE "PRT_VALUE list"

datatype PRT_VALUE_KIND =
    PRT_VALUE_KIND_NULL | PRT_VALUE_KIND_BOOL | PRT_VALUE_KIND_INT
  | PRT_VALUE_KIND_EVENT | PRT_VALUE_KIND_MID | PRT_VALUE_KIND_TUPLE

fun discriminator :: "PRT_VALUE \<Rightarrow> PRT_VALUE_KIND" where
  "discriminator NullValue = PRT_VALUE_KIND_NULL"
| "discriminator (BoolValue _) = PRT_VALUE_KIND_BOOL"
| "discriminator (IntValue _) = PRT_VALUE_KIND_INT"
| "discriminator (EventValue _) = PRT_VALUE_KIND_EVENT"
| "discriminator (MidValue _ _) = PRT_VALUE_KIND_MID"
| "discriminator (TupleValue _ _) = PRT_VALUE_KIND_TUPLE"

text \<open>
  Allocated objects live in tables indexed by their address: cell \<open>a\<close> holds
  \<open>Some x\<close> while the object is alive and \<open>None\<close> once it is freed. Allocation appends a
  cell, so a new address is the old length of the table and was never valid before. A C
  pointer is an \<open>addr option\<close>, \<open>None\<close> being \<^verbatim>\<open>NULL\<close>.
\<close>

definition cell :: "'a option list \<Rightarrow> addr \<Rightarrow> 'a option" where
  "cell h a = (if a < length h then h ! a else None)"

definition alloc :: "'a option list \<Rightarrow> 'a \<Rightarrow> addr \<times> 'a option list" where
  "alloc h x = (length h, h @ [Some x])"

definition release :: "'a option list \<Rightarrow> addr \<Rightarrow> 'a option list" where
  "release h a = (if a < length h then h[a := None] else h)"

datatype error =
    AssertFailed string   \<comment> \<open>\<^verbatim>\<open>PrtAssert\<close> with a false condition, and its message\<close>
  | Fault                 \<comment> \<open>undefined behaviour of the C code: a dereference of \<^verbatim>\<open>NULL\<close>
                              or of a freed object, a read past the end of a sized table,
                              a value of the wrong kind\<close>

section \<open>Processes and machine instances\<close>

text \<open>Modelled from the spec: \<^verbatim>\<open>PRT_SCHEDULINGPOLICY\<close>, \<^verbatim>\<open>PRT_STEP_RESULT\<close>,
  \<^verbatim>\<open>PRT_COOPERATIVE_SCHEDULER\<close>, \<^verbatim>\<open>PRT_MACHINEINST_PRIV\<close>, \<^verbatim>\<open>PRT_MACHINESTATE\<close> and
  \<^verbatim>\<open>PRT_PROCESS_PRIV\<close> (Prt.h and PrtExecution.h are missing); the fields are those that
  Prt.c reads and writes. A C enumeration can be handed any integer, so the policy has a
  third alternative for the values that are neither of the two named ones. The callbacks
  and the mutexes of the C structures have no counterpart: the model is sequential.\<close>

datatype PRT_SCHEDULINGPOLICY =
    PRT_SCHEDULINGPOLICY_TASKNEUTRAL
  | PRT_SCHEDULINGPOLICY_COOPERATIVE
  | PRT_SCHEDULINGPOLICY_OTHER nat

datatype PRT_STEP_RESULT = PRT_STEP_IDLE | PRT_STEP_MORE | PRT_STEP_TERMINATING

record PRT_SEMAPHORE =
  sem_count :: nat
  sem_max :: nat

record PRT_COOPERATIVE_SCHEDULER =
  workAvailable :: addr
  threadsWaiting :: nat
  allThreadsStopped :: addr

datatype machine_status = Running | Runnable | Blocked | Halted

record PRT_MACHINEINST =
  inst_id :: PRT_VALUE
  instanceOf :: nat
  symbolicName :: nat
  currentState :: nat
  currentPayload :: "addr option"
  status :: machine_status

record PRT_MACHINESTATE =
  ms_machineId :: nat
  ms_machineName :: string
  ms_stateId :: nat
  ms_stateName :: string

record PRT_PROCESS_PRIV =
  guid :: PRT_GUID
  program :: PRT_PROGRAMDECL
  machineCount :: nat
  proc_machines :: "PRT_MACHINEINST list"
  schedulingPolicy :: PRT_SCHEDULINGPOLICY
  schedulerInfo :: "addr option"
  terminating :: bool

definition numMachines :: "PRT_PROCESS_PRIV \<Rightarrow> nat" where
  "numMachines p = length (proc_machines p)"

definition PrtStartProcess :: "PRT_GUID \<Rightarrow> PRT_PROGRAMDECL \<Rightarrow> PRT_PROCESS_PRIV" where
  "PrtStartProcess g prog =
     \<lparr>guid = g, program = prog, machineCount = 0, proc_machines = [],
      schedulingPolicy = PRT_SCHEDULINGPOLICY_TASKNEUTRAL, schedulerInfo = None,
      terminating = False\<rparr>"

text \<open>
  The whole memory the core works on: the value heap, the caller's variables of type
  \<^verbatim>\<open>PRT_VALUE *\<close> (a \<^verbatim>\<open>PRT_VALUE **\<close> argument is the number of such a variable), the
  semaphores, the cooperative scheduler records, and the process.
\<close>

record prt_state =
  heap :: "PRT_VALUE option list"
  vars :: "nat \<Rightarrow> addr option"
  semaphores :: "PRT_SEMAPHORE option list"
  schedulers :: "PRT_COOPERATIVE_SCHEDULER option list"
  proc :: PRT_PROCESS_PRIV

section \<open>PrtGetMachine\<close>

text \<open>
  \<^verbatim>\<open>PrtAssert\<close> (missing) stops the program when its condition is false: a failed
  assertion is the result \<open>Inl (AssertFailed message)\<close>. The assertion on the process
  GUID is commented out in the source and is therefore not part of the function.
\<close>

definition PrtGetMachine :: "PRT_PROCESS_PRIV \<Rightarrow> PRT_VALUE \<Rightarrow> error + PRT_MACHINEINST" where
  "PrtGetMachine process ident =
     (if discriminator ident \<noteq> PRT_VALUE_KIND_MID
      then Inl (AssertFailed ''id is not legal PRT_MACHINEID'')
      else if \<not> (0 < machineId ident \<and> machineId ident \<le> numMachines process)
      then Inl (AssertFailed ''id out of bounds'')
      else Inr (proc_machines process ! (machineId ident - 1)))"

section \<open>Scheduling policy\<close>

text \<open>Modelled from the spec: \<^verbatim>\<open>PrtCreateSemaphore\<close> and \<^verbatim>\<open>PrtDestroySemaphore\<close>
  (the platform layer is missing): creating a semaphore allocates it with its initial
  and maximal count, destroying it frees it.\<close>

definition PrtCreateSemaphore ::
  "nat \<Rightarrow> nat \<Rightarrow> PRT_SEMAPHORE option list \<Rightarrow> addr \<times> PRT_SEMAPHORE option list" where
  "PrtCreateSemaphore initialCount maximumCount sems =
     alloc sems \<lparr>sem_count = initialCount, sem_max = maximumCount\<rparr>"

definition PrtDestroySemaphore :: "addr \<Rightarrow> PRT_SEMAPHORE option list \<Rightarrow> PRT_SEMAPHORE option list" where
  "PrtDestroySemaphore sem sems = release sems sem"

text \<open>A pointer to a record that was freed is read by the C code all the same; the
  model stops with \<open>Fault\<close> there.\<close>

definition PrtDestroyCooperativeScheduler :: "addr option \<Rightarrow> prt_state \<Rightarrow> error + prt_state" where
  "PrtDestroyCooperativeScheduler info s =
     (case info of
        None \<Rightarrow> Inr s
      | Some i \<Rightarrow>
          (case cell (schedulers s) i of
             None \<Rightarrow> Inl Fault
           | Some r \<Rightarrow>
               Inr (s\<lparr>semaphores :=
                          PrtDestroySemaphore (allThreadsStopped r)
                            (PrtDestroySemaphore (workAvailable r) (semaphores s)),
                       schedulers := release (schedulers s) i\<rparr>)))"

text \<open>
  The result \<open>Inl (e, s')\<close> is the program stopped by the error \<open>e\<close> with the memory
  \<open>s'\<close> it had at that moment: the assignment to \<^verbatim>\<open>schedulingPolicy\<close> comes before the
  tests on \<^verbatim>\<open>policy\<close>. \<^verbatim>\<open>PrtMalloc\<close> is taken to succeed, so the assertion
  \<^verbatim>\<open>info != NULL\<close> holds.
\<close>

definition PrtSetSchedulingPolicy ::
  "PRT_SCHEDULINGPOLICY \<Rightarrow> prt_state \<Rightarrow> (error \<times> prt_state) + prt_state" where
  "PrtSetSchedulingPolicy policy s =
     (if schedulingPolicy (proc s) \<noteq> policy then
        (let s1 = s\<lparr>proc := (proc s)\<lparr>schedulingPolicy := policy\<rparr>\<rparr> in
         if policy = PRT_SCHEDULINGPOLICY_COOPERATIVE then
           (let (wa, sems1) = PrtCreateSemaphore 0 32767 (semaphores s1);
                (ats, sems2) = PrtCreateSemaphore 0 32767 sems1;
                (info, scheds) = alloc (schedulers s1)
                   \<lparr>workAvailable = wa, threadsWaiting = 0, allThreadsStopped = ats\<rparr>
            in Inr (s1\<lparr>semaphores := sems2, schedulers := scheds,
                        proc := (proc s1)\<lparr>schedulerInfo := Some info\<rparr>\<rparr>))
         else if policy = PRT_SCHEDULINGPOLICY_TASKNEUTRAL then
           (case PrtDestroyCooperativeScheduler (schedulerInfo (proc s1)) s1 of
              Inl e \<Rightarrow> Inl (e, s1)
            | Inr s2 \<Rightarrow> Inr (s2\<lparr>proc := (proc s2)\<lparr>schedulerInfo := None\<rparr>\<rparr>))
         else
           Inl (AssertFailed ''PrtSetSchedulingPolicy must set either PRT_SCHEDULINGPOLICY_TASKNEUTRAL or PRT_SCHEDULINGPOLICY_COOPERATIVE'', s1))
      else Inr s)"

section \<open>PrtRunProcess\<close>

text \<open>
  \<^verbatim>\<open>PrtStepProcess\<close> and \<^verbatim>\<open>PrtYieldThread\<close> are missing, and \<^verbatim>\<open>PrtWaitForWork\<close>
  blocks on a semaphore that other threads release: the three are parameters of the
  loop, each a function on the state \<open>'w\<close> of the world as the worker thread finds it.
  The loop has no bound, so the function is partial: \<open>None\<close> is the worker that never
  returns.
\<close>

partial_function (option) PrtRunProcess ::
  "('w \<Rightarrow> PRT_STEP_RESULT \<times> 'w) \<Rightarrow> ('w \<Rightarrow> bool \<times> 'w) \<Rightarrow> ('w \<Rightarrow> 'w) \<Rightarrow> 'w \<Rightarrow> 'w option" where
  "PrtRunProcess PrtStepProcess PrtWaitForWork PrtYieldThread w =
     (case PrtStepProcess w of
        (PRT_STEP_TERMINATING, w1) \<Rightarrow> Some w1
      | (PRT_STEP_IDLE, w1) \<Rightarrow>
          (case PrtWaitForWork w1 of
             (stopping, w2) \<Rightarrow>
               if stopping then Some w2
               else PrtRunProcess PrtStepProcess PrtWaitForWork PrtYieldThread w2)
      | (PRT_STEP_MORE, w1) \<Rightarrow>
          PrtRunProcess PrtStepProcess PrtWaitForWork PrtYieldThread (PrtYieldThread w1))"

section \<open>The value adapter\<close>

text \<open>Modelled from the spec: \<^verbatim>\<open>PrtMkNullValue\<close>, \<^verbatim>\<open>PrtCloneValue\<close>,
  \<^verbatim>\<open>PrtFreeValue\<close> and \<^verbatim>\<open>MakeTupleFromArray\<close> (PrtValues.c and PrtExecution.c are
  missing): \<open>mk_null()\<close> makes a fresh null value, \<open>clone(v)\<close> is a deep copy,
  \<open>free(v)\<close> releases a value, and \<open>make_tuple(type, v[])\<close> packs an array into a typed
  tuple, taking ownership of the elements. A cell of the heap holds a whole value tree, so
  a copy of the cell's content into a new cell is a deep copy. The elements packed into a
  tuple stay where they are in memory and belong to the tuple from then on; the cell of
  the tuple holds their contents. An operation on \<^verbatim>\<open>NULL\<close> or on a freed value is a
  \<open>Fault\<close>.\<close>

definition PrtMkNullValue :: "PRT_VALUE option list \<Rightarrow> addr \<times> PRT_VALUE option list" where
  "PrtMkNullValue h = alloc h NullValue"

definition PrtCloneValue ::
  "addr option \<Rightarrow> PRT_VALUE option list \<Rightarrow> error + (addr \<times> PRT_VALUE option list)" where
  "PrtCloneValue p h =
     (case p of
        None \<Rightarrow> Inl Fault
      | Some a \<Rightarrow> (case cell h a of None \<Rightarrow> Inl Fault | Some v \<Rightarrow> Inr (alloc h v)))"

definition PrtFreeValue :: "addr option \<Rightarrow> PRT_VALUE option list \<Rightarrow> error + PRT_VALUE option list" where
  "PrtFreeValue p h =
     (case p of
        None \<Rightarrow> Inl Fault
      | Some a \<Rightarrow> (case cell h a of None \<Rightarrow> Inl Fault | Some v \<Rightarrow> Inr (release h a)))"

fun deref_all :: "PRT_VALUE option list \<Rightarrow> addr option list \<Rightarrow> PRT_VALUE list option" where
  "deref_all h [] = Some []"
| "deref_all h (None # ps) = None"
| "deref_all h (Some a # ps) =
     (case cell h a of
        None \<Rightarrow> None
      | Some v \<Rightarrow> (case deref_all h ps of None \<Rightarrow> None | Some vs \<Rightarrow> Some (v # vs)))"

definition MakeTupleFromArray ::
  "PRT_TYPE option \<Rightarrow> addr option list \<Rightarrow> PRT_VALUE option list
     \<Rightarrow> error + (addr \<times> PRT_VALUE option list)" where
  "MakeTupleFromArray tupleType elems h =
     (case tupleType of
        None \<Rightarrow> Inl Fault
      | Some ty \<Rightarrow>
          (case deref_all h elems of
             None \<Rightarrow> Inl Fault
           | Some vs \<Rightarrow> Inr (alloc h (TupleValue ty vs))))"

text \<open>Modelled from the spec: \<^verbatim>\<open>PrtGetPayloadType\<close> (PrtExecution.c is missing): the
  payload type that the program of the receiver's process declares for the event.\<close>

definition PrtGetPayloadType ::
  "PRT_PROGRAMDECL \<Rightarrow> PRT_MACHINEINST \<Rightarrow> PRT_VALUE \<Rightarrow> error + PRT_TYPE option" where
  "PrtGetPayloadType prog receiver event =
     (case event of
        EventValue e \<Rightarrow> if e < nEvents prog then Inr (Some (ev_type (events prog ! e))) else Inl Fault
      | _ \<Rightarrow> Inl Fault)"

section \<open>Variadic argument intake\<close>

text \<open>
  A variadic argument is a status followed by what the code reads for that status: a
  \<^verbatim>\<open>PRT_VALUE *\<close> for \<^verbatim>\<open>PRT_FUN_PARAM_CLONE\<close>, a \<^verbatim>\<open>PRT_VALUE **\<close> (the number of a
  variable of the caller) for \<^verbatim>\<open>PRT_FUN_PARAM_MOVE\<close>, and nothing for
  \<^verbatim>\<open>PRT_FUN_PARAM_SWAP\<close>. The parameter \<^verbatim>\<open>numArgs\<close> is the length of the list.
\<close>

datatype PRT_FUN_PARAM_STATUS = PRT_FUN_PARAM_CLONE | PRT_FUN_PARAM_SWAP | PRT_FUN_PARAM_MOVE

datatype fun_arg = CloneArg "addr option" | SwapArg | MoveArg nat

fun argStatus :: "fun_arg \<Rightarrow> PRT_FUN_PARAM_STATUS" where
  "argStatus (CloneArg _) = PRT_FUN_PARAM_CLONE"
| "argStatus SwapArg = PRT_FUN_PARAM_SWAP"
| "argStatus (MoveArg _) = PRT_FUN_PARAM_MOVE"

text \<open>
  The loop \<^verbatim>\<open>for (i = 0; i < numArgs; i++)\<close> over the variadic arguments. Its text is the
  same in \<^verbatim>\<open>PrtSend\<close>, \<^verbatim>\<open>PrtSendInternal\<close>, \<^verbatim>\<open>PrtMkMachine\<close> and
  \<^verbatim>\<open>PrtMkSymbolicMachine\<close> up to the name of the function in the message of the
  assertion, the first parameter here. The second list is the array \<^verbatim>\<open>args\<close> filled so
  far: \<^verbatim>\<open>args[i]\<close> is written at the end of it.
\<close>

fun collect_args ::
  "string \<Rightarrow> fun_arg list \<Rightarrow> addr option list \<Rightarrow> prt_state \<Rightarrow> error + (addr option list \<times> prt_state)" where
  "collect_args fn [] args s = Inr (args, s)"
| "collect_args fn (CloneArg arg # rest) args s =
     (case PrtCloneValue arg (heap s) of
        Inl e \<Rightarrow> Inl e
      | Inr (a, h) \<Rightarrow> collect_args fn rest (args @ [Some a]) (s\<lparr>heap := h\<rparr>))"
| "collect_args fn (SwapArg # rest) args s =
     Inl (AssertFailed (''Illegal parameter type in '' @ fn))"
| "collect_args fn (MoveArg argPtr # rest) args s =
     collect_args fn rest (args @ [vars s argPtr]) (s\<lparr>vars := (vars s)(argPtr := None)\<rparr>)"

text \<open>The arguments a caller may pass by \<^verbatim>\<open>PRT_FUN_PARAM_CLONE\<close>: pointers to values
  that are alive in the heap.\<close>

fun clone_live :: "PRT_VALUE option list \<Rightarrow> fun_arg \<Rightarrow> bool" where
  "clone_live h (CloneArg None) = False"
| "clone_live h (CloneArg (Some a)) = (cell h a \<noteq> None)"
| "clone_live h SwapArg = True"
| "clone_live h (MoveArg x) = True"

definition clones_live :: "PRT_VALUE option list \<Rightarrow> fun_arg list \<Rightarrow> bool" where
  "clones_live h vargs = list_all (clone_live h) vargs"

text \<open>A well-formed list of arguments: every value passed by
  \<^verbatim>\<open>PRT_FUN_PARAM_CLONE\<close> is alive, every variable passed by \<^verbatim>\<open>PRT_FUN_PARAM_MOVE\<close>
  points to a value that is alive and is passed only once, and no argument has the status
  \<^verbatim>\<open>PRT_FUN_PARAM_SWAP\<close>.\<close>

fun moved_vars :: "fun_arg list \<Rightarrow> nat list" where
  "moved_vars [] = []"
| "moved_vars (MoveArg x # vargs) = x # moved_vars vargs"
| "moved_vars (CloneArg c # vargs) = moved_vars vargs"
| "moved_vars (SwapArg # vargs) = moved_vars vargs"

fun arg_ok :: "prt_state \<Rightarrow> fun_arg \<Rightarrow> bool" where
  "arg_ok s (CloneArg None) = False"
| "arg_ok s (CloneArg (Some a)) = (cell (heap s) a \<noteq> None)"
| "arg_ok s SwapArg = False"
| "arg_ok s (MoveArg x) = (case vars s x of None \<Rightarrow> False | Some b \<Rightarrow> cell (heap s) b \<noteq> None)"

definition args_ok :: "prt_state \<Rightarrow> fun_arg list \<Rightarrow> bool" where
  "args_ok s vargs = (list_all (arg_ok s) vargs \<and> distinct (moved_vars vargs))"

section \<open>PrtSend and PrtSendInternal\<close>

text \<open>
  \<^verbatim>\<open>PrtSendPrivate\<close> is missing: it is the first parameter of the two functions, called
  with the sender's state, the receiver, the event, the payload and the memory.
\<close>

definition PrtSend ::
  "(PRT_MACHINESTATE \<Rightarrow> PRT_MACHINEINST \<Rightarrow> PRT_VALUE \<Rightarrow> addr option \<Rightarrow> prt_state \<Rightarrow> error + 'r)
     \<Rightarrow> PRT_MACHINESTATE \<Rightarrow> PRT_MACHINEINST \<Rightarrow> PRT_VALUE \<Rightarrow> fun_arg list \<Rightarrow> prt_state
     \<Rightarrow> error + 'r" where
  "PrtSend PrtSendPrivate senderState receiver event vargs s =
     (case
        (if length vargs = 0 then
           (case PrtMkNullValue (heap s) of (payload, h) \<Rightarrow> Inr (Some payload, s\<lparr>heap := h\<rparr>))
         else
           (case collect_args ''PrtSend'' vargs [] s of
              Inl e \<Rightarrow> Inl e
            | Inr (args, s1) \<Rightarrow>
                if length vargs > 1 then
                  (case PrtGetPayloadType (program (proc s1)) receiver event of
                     Inl e \<Rightarrow> Inl e
                   | Inr payloadTy \<Rightarrow>
                       (case MakeTupleFromArray payloadTy args (heap s1) of
                          Inl e \<Rightarrow> Inl e
                        | Inr (payload, h) \<Rightarrow> Inr (Some payload, s1\<lparr>heap := h\<rparr>)))
                else Inr (args ! 0, s1)))
      of
        Inl e \<Rightarrow> Inl e
      | Inr (payload, s2) \<Rightarrow> PrtSendPrivate senderState receiver event payload s2)"

text \<open>Modelled from the spec: \<^verbatim>\<open>PrtGetCurrentStateDecl\<close> (PrtExecution.c is missing): the
  declaration of the instance's current state in its machine declaration.\<close>

definition PrtGetCurrentStateDecl :: "PRT_PROGRAMDECL \<Rightarrow> PRT_MACHINEINST \<Rightarrow> error + PRT_STATEDECL" where
  "PrtGetCurrentStateDecl prog context =
     (if instanceOf context < nMachines prog
         \<and> currentState context < length (states (machines prog ! instanceOf context))
      then Inr (states (machines prog ! instanceOf context) ! currentState context)
      else Inl Fault)"

definition PrtGetMachineState :: "PRT_PROGRAMDECL \<Rightarrow> PRT_MACHINEINST \<Rightarrow> error + PRT_MACHINESTATE" where
  "PrtGetMachineState prog context =
     (if discriminator (inst_id context) \<noteq> PRT_VALUE_KIND_MID \<or> \<not> instanceOf context < nMachines prog
      then Inl Fault
      else
        (case PrtGetCurrentStateDecl prog context of
           Inl e \<Rightarrow> Inl e
         | Inr sd \<Rightarrow>
             Inr \<lparr>ms_machineId = machineId (inst_id context),
                  ms_machineName = m_name (machines prog ! instanceOf context),
                  ms_stateId = currentState context,
                  ms_stateName = st_name sd\<rparr>))"

definition PrtSendInternal ::
  "(PRT_MACHINESTATE \<Rightarrow> PRT_MACHINEINST \<Rightarrow> PRT_VALUE \<Rightarrow> addr option \<Rightarrow> prt_state \<Rightarrow> error + 'r)
     \<Rightarrow> PRT_MACHINEINST \<Rightarrow> PRT_MACHINEINST \<Rightarrow> PRT_VALUE \<Rightarrow> fun_arg list \<Rightarrow> prt_state
     \<Rightarrow> error + 'r" where
  "PrtSendInternal PrtSendPrivate sender receiver event vargs s =
     (case PrtGetMachineState (program (proc s)) sender of
        Inl e \<Rightarrow> Inl e
      | Inr senderState \<Rightarrow>
          (case
             (if length vargs = 0 then
                (case PrtMkNullValue (heap s) of (payload, h) \<Rightarrow> Inr (Some payload, s\<lparr>heap := h\<rparr>))
              else
                (case collect_args ''PrtSendInternal'' vargs [] s of
                   Inl e \<Rightarrow> Inl e
                 | Inr (args, s1) \<Rightarrow>
                     if length vargs > 1 then
                       (case PrtGetPayloadType (program (proc s1)) receiver event of
                          Inl e \<Rightarrow> Inl e
                        | Inr payloadTy \<Rightarrow>
                            (case MakeTupleFromArray payloadTy args (heap s1) of
                               Inl e \<Rightarrow> Inl e
                             | Inr (payload, h) \<Rightarrow> Inr (Some payload, s1\<lparr>heap := h\<rparr>)))
                     else Inr (args ! 0, s1)))
           of
             Inl e \<Rightarrow> Inl e
           | Inr (payload, s2) \<Rightarrow> PrtSendPrivate senderState receiver event payload s2))"

text \<open>The call that reaches \<^verbatim>\<open>PrtSendPrivate\<close>: its four arguments and the memory at
  that moment.\<close>

definition send_call ::
  "PRT_MACHINESTATE \<Rightarrow> PRT_MACHINEINST \<Rightarrow> PRT_VALUE \<Rightarrow> addr option \<Rightarrow> prt_state
     \<Rightarrow> error + (PRT_MACHINESTATE \<times> PRT_MACHINEINST \<times> PRT_VALUE \<times> addr option \<times> prt_state)" where
  "send_call senderState receiver event payload s = Inr (senderState, receiver, event, payload, s)"

section \<open>PrtMkMachine and PrtMkSymbolicMachine\<close>

text \<open>
  \<^verbatim>\<open>PrtMkMachinePrivate\<close> is missing: it is the first parameter of the two functions,
  called with the symbolic name, the index of the machine declaration, the payload and
  the memory (which holds the process); it returns its result and the new memory. The
  reads of \<^verbatim>\<open>machines[instanceOf]\<close> and \<^verbatim>\<open>states[initStateIndex]\<close> have no bounds
  check in the C code: past the end of the table the model stops with \<open>Fault\<close>.
\<close>

definition PrtMkMachine ::
  "(nat \<Rightarrow> nat \<Rightarrow> addr option \<Rightarrow> prt_state \<Rightarrow> error + ('r \<times> prt_state))
     \<Rightarrow> nat \<Rightarrow> fun_arg list \<Rightarrow> prt_state \<Rightarrow> error + ('r \<times> prt_state)" where
  "PrtMkMachine PrtMkMachinePriv symbolicMachineName vargs s =
     (let instOf = machineDefMap (program (proc s)) symbolicMachineName in
      case
        (if length vargs = 0 then
           (case PrtMkNullValue (heap s) of (payload, h) \<Rightarrow> Inr (Some payload, s\<lparr>heap := h\<rparr>))
         else
           (case collect_args ''PrtMkMachine'' vargs [] s of
              Inl e \<Rightarrow> Inl e
            | Inr (args, s1) \<Rightarrow>
                if length vargs > 1 then
                  (if \<not> instOf < nMachines (program (proc s1)) then Inl Fault
                   else
                     (let machineDecl = machines (program (proc s1)) ! instOf in
                      if \<not> initStateIndex machineDecl < length (states machineDecl) then Inl Fault
                      else
                        (let entryFn = entryFun (states machineDecl ! initStateIndex machineDecl);
                             payloadTy = payloadType entryFn
                         in case MakeTupleFromArray payloadTy args (heap s1) of
                              Inl e \<Rightarrow> Inl e
                            | Inr (payload, h) \<Rightarrow> Inr (Some payload, s1\<lparr>heap := h\<rparr>))))
                else Inr (args ! 0, s1)))
      of
        Inl e \<Rightarrow> Inl e
      | Inr (payload, s2) \<Rightarrow>
          (case PrtMkMachinePriv symbolicMachineName instOf payload s2 of
             Inl e \<Rightarrow> Inl e
           | Inr (result, s3) \<Rightarrow>
               (case PrtFreeValue payload (heap s3) of
                  Inl e \<Rightarrow> Inl e
                | Inr h \<Rightarrow> Inr (result, s3\<lparr>heap := h\<rparr>))))"

definition PrtMkSymbolicMachine ::
  "(nat \<Rightarrow> nat \<Rightarrow> addr option \<Rightarrow> prt_state \<Rightarrow> error + ('r \<times> prt_state))
     \<Rightarrow> PRT_MACHINEINST \<Rightarrow> nat \<Rightarrow> fun_arg list \<Rightarrow> prt_state \<Rightarrow> error + ('r \<times> prt_state)" where
  "PrtMkSymbolicMachine PrtMkMachinePriv creator IorM vargs s =
     (let symName = linkMap (program (proc s)) (symbolicName creator) IorM;
          instOf = machineDefMap (program (proc s)) symName in
      case
        (if length vargs = 0 then
           (case PrtMkNullValue (heap s) of (payload, h) \<Rightarrow> Inr (Some payload, s\<lparr>heap := h\<rparr>))
         else
           (case collect_args ''PrtMkSymbolicMachine'' vargs [] s of
              Inl e \<Rightarrow> Inl e
            | Inr (args, s1) \<Rightarrow>
                if length vargs > 1 then
                  (if \<not> instOf < nMachines (program (proc s1)) then Inl Fault
                   else
                     (let machineDecl = machines (program (proc s1)) ! instOf in
                      if \<not> initStateIndex machineDecl < length (states machineDecl) then Inl Fault
                      else
                        (let entryFn = entryFun (states machineDecl ! initStateIndex machineDecl);
                             payloadTy = payloadType entryFn
                         in case MakeTupleFromArray payloadTy args (heap s1) of
                              Inl e \<Rightarrow> Inl e
                            | Inr (payload, h) \<Rightarrow> Inr (Some payload, s1\<lparr>heap := h\<rparr>))))
                else Inr (args ! 0, s1)))
      of
        Inl e \<Rightarrow> Inl e
      | Inr (payload, s2) \<Rightarrow>
          (case PrtMkMachinePriv symName instOf payload s2 of
             Inl e \<Rightarrow> Inl e
           | Inr (result, s3) \<Rightarrow>
               (case PrtFreeValue payload (heap s3) of
                  Inl e \<Rightarrow> Inl e
                | Inr h \<Rightarrow> Inr (result, s3\<lparr>heap := h\<rparr>))))"

text \<open>The call that reaches \<^verbatim>\<open>PrtMkMachinePrivate\<close>: its arguments and the memory at
  that moment; the memory is handed back as it is.\<close>

definition mk_call ::
  "nat \<Rightarrow> nat \<Rightarrow> addr option \<Rightarrow> prt_state
     \<Rightarrow> error + ((nat \<times> nat \<times> addr option \<times> prt_state) \<times> prt_state)" where
  "mk_call symName instOf payload s = Inr ((symName, instOf, payload, s), s)"

text \<open>Modelled from the spec: \<^verbatim>\<open>PrtMkMachinePrivate\<close> (PrtExecution.c is missing):
  \<open>create(process, symbolicName, payload)\<close> allocates the instance, assigns it the next
  \<open>machineId = machineCount + 1\<close>, appends it to \<open>machines[]\<close>, clones the payload into its
  initial locals, marks it runnable and returns it; the initial state is the machine
  declaration's \<open>initStateIndex\<close>. The index of the machine declaration,
  \<open>machineDefMap[symbolicName]\<close>, is resolved by the two callers in Prt.c and handed over
  as the second argument.\<close>

definition PrtMkMachinePrivate ::
  "nat \<Rightarrow> nat \<Rightarrow> addr option \<Rightarrow> prt_state \<Rightarrow> error + (PRT_MACHINEINST \<times> prt_state)" where
  "PrtMkMachinePrivate symName instOf payload s =
     (if \<not> instOf < nMachines (program (proc s)) then Inl Fault
      else
        (case PrtCloneValue payload (heap s) of
           Inl e \<Rightarrow> Inl e
         | Inr (a, h) \<Rightarrow>
             (let p = proc s;
                  mid = machineCount p + 1;
                  context = \<lparr>inst_id = MidValue (guid p) mid,
                             instanceOf = instOf,
                             symbolicName = symName,
                             currentState = initStateIndex (machines (program p) ! instOf),
                             currentPayload = Some a,
                             status = Runnable\<rparr>
              in Inr (context,
                      s\<lparr>heap := h,
                        proc := p\<lparr>machineCount := mid,
                                  proc_machines := proc_machines p @ [context]\<rparr>\<rparr>))))"

section \<open>The payload of a call\<close>

text \<open>
  The statements that compute \<^verbatim>\<open>payload\<close> are the same in the four functions, up to
  the message of the assertion and the expression for the type of the tuple. They are
  written once more here, with these two as parameters, so that the properties of the
  payload are proved once; each of the four functions is then shown to be this
  computation followed by its call.
\<close>

definition make_payload ::
  "string \<Rightarrow> (PRT_PROGRAMDECL \<Rightarrow> error + PRT_TYPE option) \<Rightarrow> fun_arg list \<Rightarrow> prt_state
     \<Rightarrow> error + (addr option \<times> prt_state)" where
  "make_payload fn getType vargs s =
     (if length vargs = 0 then
        (case PrtMkNullValue (heap s) of (payload, h) \<Rightarrow> Inr (Some payload, s\<lparr>heap := h\<rparr>))
      else
        (case collect_args fn vargs [] s of
           Inl e \<Rightarrow> Inl e
         | Inr (args, s1) \<Rightarrow>
             if length vargs > 1 then
               (case getType (program (proc s1)) of
                  Inl e \<Rightarrow> Inl e
                | Inr payloadTy \<Rightarrow>
                    (case MakeTupleFromArray payloadTy args (heap s1) of
                       Inl e \<Rightarrow> Inl e
                     | Inr (payload, h) \<Rightarrow> Inr (Some payload, s1\<lparr>heap := h\<rparr>)))
             else Inr (args ! 0, s1)))"

text \<open>The payload type of the entry function of the initial state of machine
  declaration \<open>instOf\<close>, as \<^verbatim>\<open>PrtMkMachine\<close> and \<^verbatim>\<open>PrtMkSymbolicMachine\<close> read it.\<close>

definition entry_payload_type :: "nat \<Rightarrow> PRT_PROGRAMDECL \<Rightarrow> error + PRT_TYPE option" where
  "entry_payload_type instOf prog =
     (if \<not> instOf < nMachines prog then Inl Fault
      else
        (let machineDecl = machines prog ! instOf in
         if \<not> initStateIndex machineDecl < length (states machineDecl) then Inl Fault
         else Inr (payloadType (entryFun (states machineDecl ! initStateIndex machineDecl)))))"

text \<open>What \<^verbatim>\<open>PrtMkMachine\<close> and \<^verbatim>\<open>PrtMkSymbolicMachine\<close> do once the payload is made:
  the call of \<^verbatim>\<open>PrtMkMachinePrivate\<close>, then \<^verbatim>\<open>PrtFreeValue(payload)\<close>.\<close>

definition create_and_free ::
  "(nat \<Rightarrow> nat \<Rightarrow> addr option \<Rightarrow> prt_state \<Rightarrow> error + ('r \<times> prt_state))
     \<Rightarrow> nat \<Rightarrow> nat \<Rightarrow> addr option \<Rightarrow> prt_state \<Rightarrow> error + ('r \<times> prt_state)" where
  "create_and_free PrtMkMachinePriv symName instOf payload s2 =
     (case PrtMkMachinePriv symName instOf payload s2 of
        Inl e \<Rightarrow> Inl e
      | Inr (result, s3) \<Rightarrow>
          (case PrtFreeValue payload (heap s3) of
             Inl e \<Rightarrow> Inl e
           | Inr h \<Rightarrow> Inr (result, s3\<lparr>heap := h\<rparr>)))"

section \<open>The worker loop as the specification describes it\<close>

text \<open>
  The description of \<open>run()\<close> in the specification, as a relation between the state in
  which a worker enters the loop and the state in which it returns: on \<open>TERMINATING\<close>
  it returns at once; on \<open>IDLE\<close> it parks in \<open>wait_for_work\<close> and returns if that
  reports that the process is terminating, and goes on otherwise; on \<open>MORE\<close> it yields
  the thread and goes on. There is no other way to return.
\<close>

inductive run_spec ::
  "('w \<Rightarrow> PRT_STEP_RESULT \<times> 'w) \<Rightarrow> ('w \<Rightarrow> bool \<times> 'w) \<Rightarrow> ('w \<Rightarrow> 'w) \<Rightarrow> 'w \<Rightarrow> 'w \<Rightarrow> bool"
  for step :: "'w \<Rightarrow> PRT_STEP_RESULT \<times> 'w" and wait :: "'w \<Rightarrow> bool \<times> 'w" and yield :: "'w \<Rightarrow> 'w"
where
  on_terminating: "step w = (PRT_STEP_TERMINATING, w1) \<Longrightarrow> run_spec step wait yield w w1"
| on_idle_stop: "step w = (PRT_STEP_IDLE, w1) \<Longrightarrow> wait w1 = (True, w2) \<Longrightarrow> run_spec step wait yield w w2"
| on_idle_continue:
    "step w = (PRT_STEP_IDLE, w1) \<Longrightarrow> wait w1 = (False, w2) \<Longrightarrow> run_spec step wait yield w2 w'
       \<Longrightarrow> run_spec step wait yield w w'"
| on_more:
    "step w = (PRT_STEP_MORE, w1) \<Longrightarrow> run_spec step wait yield (yield w1) w'
       \<Longrightarrow> run_spec step wait yield w w'"

text \<open>The message of the assertion in \<^verbatim>\<open>PrtSetSchedulingPolicy\<close>.\<close>

definition policy_message :: string where
  "policy_message = ''PrtSetSchedulingPolicy must set either PRT_SCHEDULINGPOLICY_TASKNEUTRAL or PRT_SCHEDULINGPOLICY_COOPERATIVE''"

section \<open>Example data\<close>

text \<open>A small program and a process with two machine instances, used to run the
  functions on concrete inputs. The indices stored in the declarations are wrong on
  purpose: \<^verbatim>\<open>PrtInitialize\<close> has not run yet.\<close>

definition ex_fun :: PRT_FUNDECL where
  "ex_fun = \<lparr>fun_name = ''anon'', numParameters = 1, maxNumLocals = 2, payloadType = Some (PrtType 7)\<rparr>"

definition ex_machine :: "string \<Rightarrow> PRT_MACHINEDECL" where
  "ex_machine n = \<lparr>m_declIndex = 3, m_name = n, maxQueueSize = 2, initStateIndex = 0,
                   states = [\<lparr>st_name = ''S0'', entryFun = ex_fun, exitFun = ex_fun\<rparr>]\<rparr>"

definition ex_program :: PRT_PROGRAMDECL where
  "ex_program =
     \<lparr>events = [\<lparr>ev_declIndex = 5, ev_name = ''PING'', eventMaxInstances = 1, ev_type = PrtType 1\<rparr>,
                \<lparr>ev_declIndex = 9, ev_name = ''PONG'', eventMaxInstances = 2, ev_type = PrtType 2\<rparr>],
      machines = [ex_machine ''M'', ex_machine ''M1'', ex_machine ''M2'', ex_machine ''M3'',
                  ex_machine ''M4'', ex_machine ''M5''],
      foreignTypes = [\<lparr>ft_declIndex = 4, ft_name = ''F''\<rparr>],
      linkMap = (\<lambda>p k. if p = 2 \<and> k = 3 then 9 else p + k),
      machineDefMap = (\<lambda>q. if q = 9 then 5 else 0)\<rparr>"

text \<open>The same program in memory: the declarations of the example program stand at the
  addresses 10 and 11 (events), 20 to 25 (machines) and 30 (foreign type). In the second
  memory the event table points twice to the declaration at address 10.\<close>

definition ex_memory :: PRT_PROGRAM_MEMORY where
  "ex_memory =
     \<lparr>eventTable = [10, 11],
      machineTable = [20, 21, 22, 23, 24, 25],
      foreignTypeTable = [30],
      eventObjects = (\<lambda>a. events ex_program ! min (a - 10) 1),
      machineObjects = (\<lambda>a. machines ex_program ! min (a - 20) 5),
      foreignTypeObjects = (\<lambda>a. foreignTypes ex_program ! 0),
      mem_linkMap = linkMap ex_program,
      mem_machineDefMap = machineDefMap ex_program\<rparr>"

definition ex_shared_memory :: PRT_PROGRAM_MEMORY where
  "ex_shared_memory = ex_memory\<lparr>eventTable := [10, 10, 11]\<rparr>"

definition ex_inst :: "nat \<Rightarrow> PRT_MACHINEINST" where
  "ex_inst n = \<lparr>inst_id = MidValue 1 n, instanceOf = 0, symbolicName = n, currentState = 0,
                currentPayload = None, status = Runnable\<rparr>"

definition ex_process :: PRT_PROCESS_PRIV where
  "ex_process = (PrtStartProcess 1 ex_program)\<lparr>machineCount := 2, proc_machines := [ex_inst 1, ex_inst 2]\<rparr>"

definition ex_state :: prt_state where
  "ex_state =
     \<lparr>heap = [Some (IntValue 42), Some (BoolValue True), None],
      vars = (\<lambda>x. if x = 0 then Some 0 else if x = 1 then Some 1 else None),
      semaphores = [], schedulers = [], proc = ex_process\<rparr>"

text \<open>The state of the first example instance, as \<^verbatim>\<open>PrtGetMachineState\<close> reports it.\<close>

definition ex_sender_state :: PRT_MACHINESTATE where
  "ex_sender_state = \<lparr>ms_machineId = 1, ms_machineName = ''M'', ms_stateId = 0, ms_stateName = ''S0''\<rparr>"

text \<open>The memory after the example process has switched to the cooperative policy.\<close>

definition ex_coop_state :: prt_state where
  "ex_coop_state =
     ex_state\<lparr>semaphores := [Some \<lparr>sem_count = 0, sem_max = 32767\<rparr>,
                              Some \<lparr>sem_count = 0, sem_max = 32767\<rparr>],
               schedulers := [Some \<lparr>workAvailable = 0, threadsWaiting = 0, allThreadsStopped = 1\<rparr>],
               proc := ex_process\<lparr>schedulingPolicy := PRT_SCHEDULINGPOLICY_COOPERATIVE,
                                   schedulerInfo := Some 0\<rparr>\<rparr>"

text \<open>A worker's world as a counter: the first step has more work, the next two find the
  process idle, and the second wait is told that the process terminates.\<close>

definition ex_step :: "nat \<Rightarrow> PRT_STEP_RESULT \<times> nat" where
  "ex_step w = (if w = 0 then (PRT_STEP_MORE, 1) else if w = 2 then (PRT_STEP_IDLE, 3)
                else if w = 4 then (PRT_STEP_IDLE, 5) else (PRT_STEP_TERMINATING, w + 100))"

definition ex_wait :: "nat \<Rightarrow> bool \<times> nat" where
  "ex_wait w = (w = 5, w + 1)"

definition ex_yield :: "nat \<Rightarrow> nat" where
  "ex_yield w = w + 1"

text \<open>Two arguments for a call: the first value of the example heap by copy, the
  variable 1 of the caller by move; the memory once the two are packed into a tuple of
  type \<open>ty\<close>; and the instance and the memory after the second example instance has
  created a child through link 3 with no argument.\<close>

definition ex_args :: "fun_arg list" where
  "ex_args = [CloneArg (Some 0), MoveArg 1]"

definition ex_after :: "PRT_TYPE \<Rightarrow> prt_state" where
  "ex_after ty =
     ex_state\<lparr>heap := heap ex_state @ [Some (IntValue 42),
                                         Some (TupleValue ty [IntValue 42, BoolValue True])],
               vars := (vars ex_state)(1 := None)\<rparr>"

definition ex_child :: PRT_MACHINEINST where
  "ex_child = \<lparr>inst_id = MidValue 1 3, instanceOf = 5, symbolicName = 9, currentState = 0,
               currentPayload = Some 4, status = Runnable\<rparr>"

definition ex_created :: prt_state where
  "ex_created =
     ex_state\<lparr>heap := heap ex_state @ [None, Some NullValue],
               proc := ex_process\<lparr>machineCount := 3,
                                   proc_machines := [ex_inst 1, ex_inst 2, ex_child]\<rparr>\<rparr>"

section \<open>Properties of PrtInitialize\<close>

declare init_events.simps [simp del] init_machines.simps [simp del] init_foreignTypes.simps [simp del]

lemma init_events_untouched:
  "(\<forall>j. i \<le> j \<and> j < length tbl \<longrightarrow> tbl ! j \<noteq> a) \<Longrightarrow> init_events i tbl objs a = objs a"
proof (induction i tbl objs rule: init_events.induct)
  case (1 i tbl objs)
  show ?case
  proof (cases "i < length tbl")
    case True
    have "init_events i tbl objs a
            = init_events (i + 1) tbl (objs((tbl ! i) := (objs (tbl ! i))\<lparr>ev_declIndex := i\<rparr>)) a"
      using True by (subst init_events.simps) simp
    also have "\<dots> = (objs((tbl ! i) := (objs (tbl ! i))\<lparr>ev_declIndex := i\<rparr>)) a"
    proof (rule "1.IH" [OF True])
      show "\<forall>j. i + 1 \<le> j \<and> j < length tbl \<longrightarrow> tbl ! j \<noteq> a"
        using "1.prems" by simp
    qed
    also have "\<dots> = objs a"
      using "1.prems" True by auto
    finally show ?thesis .
  next
    case False
    then show ?thesis by (subst init_events.simps) simp
  qed
qed

lemma init_events_last:
  "i \<le> j \<Longrightarrow> j < length tbl \<Longrightarrow> (\<forall>k. j < k \<and> k < length tbl \<longrightarrow> tbl ! k \<noteq> tbl ! j) \<Longrightarrow>
     init_events i tbl objs (tbl ! j) = (objs (tbl ! j))\<lparr>ev_declIndex := j\<rparr>"
proof (induction i tbl objs rule: init_events.induct)
  case (1 i tbl objs)
  from "1.prems" have lt: "i < length tbl" by simp
  let ?objs = "objs((tbl ! i) := (objs (tbl ! i))\<lparr>ev_declIndex := i\<rparr>)"
  have step: "init_events i tbl objs (tbl ! j) = init_events (i + 1) tbl ?objs (tbl ! j)"
    using lt by (subst init_events.simps) simp
  show ?case
  proof (cases "i = j")
    case True
    have "init_events (i + 1) tbl ?objs (tbl ! j) = ?objs (tbl ! j)"
      using "1.prems" True by (intro init_events_untouched) auto
    with step True show ?thesis by simp
  next
    case False
    with "1.prems" have "i + 1 \<le> j" by simp
    from "1.IH" [OF lt this "1.prems"(2,3)]
    have "init_events (i + 1) tbl ?objs (tbl ! j) = (?objs (tbl ! j))\<lparr>ev_declIndex := j\<rparr>" .
    with step show ?thesis by simp
  qed
qed

lemma init_machines_untouched:
  "(\<forall>j. i \<le> j \<and> j < length tbl \<longrightarrow> tbl ! j \<noteq> a) \<Longrightarrow> init_machines i tbl objs a = objs a"
proof (induction i tbl objs rule: init_machines.induct)
  case (1 i tbl objs)
  show ?case
  proof (cases "i < length tbl")
    case True
    have "init_machines i tbl objs a
            = init_machines (i + 1) tbl (objs((tbl ! i) := (objs (tbl ! i))\<lparr>m_declIndex := i\<rparr>)) a"
      using True by (subst init_machines.simps) simp
    also have "\<dots> = (objs((tbl ! i) := (objs (tbl ! i))\<lparr>m_declIndex := i\<rparr>)) a"
    proof (rule "1.IH" [OF True])
      show "\<forall>j. i + 1 \<le> j \<and> j < length tbl \<longrightarrow> tbl ! j \<noteq> a"
        using "1.prems" by simp
    qed
    also have "\<dots> = objs a"
      using "1.prems" True by auto
    finally show ?thesis .
  next
    case False
    then show ?thesis by (subst init_machines.simps) simp
  qed
qed

lemma init_machines_last:
  "i \<le> j \<Longrightarrow> j < length tbl \<Longrightarrow> (\<forall>k. j < k \<and> k < length tbl \<longrightarrow> tbl ! k \<noteq> tbl ! j) \<Longrightarrow>
     init_machines i tbl objs (tbl ! j) = (objs (tbl ! j))\<lparr>m_declIndex := j\<rparr>"
proof (induction i tbl objs rule: init_machines.induct)
  case (1 i tbl objs)
  from "1.prems" have lt: "i < length tbl" by simp
  let ?objs = "objs((tbl ! i) := (objs (tbl ! i))\<lparr>m_declIndex := i\<rparr>)"
  have step: "init_machines i tbl objs (tbl ! j) = init_machines (i + 1) tbl ?objs (tbl ! j)"
    using lt by (subst init_machines.simps) simp
  show ?case
  proof (cases "i = j")
    case True
    have "init_machines (i + 1) tbl ?objs (tbl ! j) = ?objs (tbl ! j)"
      using "1.prems" True by (intro init_machines_untouched) auto
    with step True show ?thesis by simp
  next
    case False
    with "1.prems" have "i + 1 \<le> j" by simp
    from "1.IH" [OF lt this "1.prems"(2,3)]
    have "init_machines (i + 1) tbl ?objs (tbl ! j) = (?objs (tbl ! j))\<lparr>m_declIndex := j\<rparr>" .
    with step show ?thesis by simp
  qed
qed

lemma init_foreignTypes_untouched:
  "(\<forall>j. i \<le> j \<and> j < length tbl \<longrightarrow> tbl ! j \<noteq> a) \<Longrightarrow> init_foreignTypes i tbl objs a = objs a"
proof (induction i tbl objs rule: init_foreignTypes.induct)
  case (1 i tbl objs)
  show ?case
  proof (cases "i < length tbl")
    case True
    have "init_foreignTypes i tbl objs a
            = init_foreignTypes (i + 1) tbl (objs((tbl ! i) := (objs (tbl ! i))\<lparr>ft_declIndex := i\<rparr>)) a"
      using True by (subst init_foreignTypes.simps) simp
    also have "\<dots> = (objs((tbl ! i) := (objs (tbl ! i))\<lparr>ft_declIndex := i\<rparr>)) a"
    proof (rule "1.IH" [OF True])
      show "\<forall>j. i + 1 \<le> j \<and> j < length tbl \<longrightarrow> tbl ! j \<noteq> a"
        using "1.prems" by simp
    qed
    also have "\<dots> = objs a"
      using "1.prems" True by auto
    finally show ?thesis .
  next
    case False
    then show ?thesis by (subst init_foreignTypes.simps) simp
  qed
qed

lemma init_foreignTypes_last:
  "i \<le> j \<Longrightarrow> j < length tbl \<Longrightarrow> (\<forall>k. j < k \<and> k < length tbl \<longrightarrow> tbl ! k \<noteq> tbl ! j) \<Longrightarrow>
     init_foreignTypes i tbl objs (tbl ! j) = (objs (tbl ! j))\<lparr>ft_declIndex := j\<rparr>"
proof (induction i tbl objs rule: init_foreignTypes.induct)
  case (1 i tbl objs)
  from "1.prems" have lt: "i < length tbl" by simp
  let ?objs = "objs((tbl ! i) := (objs (tbl ! i))\<lparr>ft_declIndex := i\<rparr>)"
  have step: "init_foreignTypes i tbl objs (tbl ! j) = init_foreignTypes (i + 1) tbl ?objs (tbl ! j)"
    using lt by (subst init_foreignTypes.simps) simp
  show ?case
  proof (cases "i = j")
    case True
    have "init_foreignTypes (i + 1) tbl ?objs (tbl ! j) = ?objs (tbl ! j)"
      using "1.prems" True by (intro init_foreignTypes_untouched) auto
    with step True show ?thesis by simp
  next
    case False
    with "1.prems" have "i + 1 \<le> j" by simp
    from "1.IH" [OF lt this "1.prems"(2,3)]
    have "init_foreignTypes (i + 1) tbl ?objs (tbl ! j) = (?objs (tbl ! j))\<lparr>ft_declIndex := j\<rparr>" .
    with step show ?thesis by simp
  qed
qed

lemma distinct_no_later:
  "distinct tbl \<Longrightarrow> j < length tbl \<Longrightarrow> \<forall>k. j < k \<and> k < length tbl \<longrightarrow> tbl ! k \<noteq> tbl ! j"
  by (auto simp: nth_eq_iff_index_eq)


text \<open>
  Claim C9, as stated, does not hold for every program: the tables hold pointers, and the
  loops write through them. In the second example memory the event table points to the
  declaration at address 10 from the positions 0 and 1; the loop writes 0 and then 1 into
  it, and the event at position 0 has \<open>declIndex = 1\<close>.
\<close>

theorem PrtInitialize_shared_counterexample:
  "0 < nEvents (program_of (fst (PrtInitialize ex_shared_memory)))
   \<and> eventTable ex_shared_memory ! 0 = eventTable ex_shared_memory ! 1
   \<and> ev_declIndex (events (program_of (fst (PrtInitialize ex_shared_memory))) ! 0) = 1"
proof -
  have "init_events 0 [10, 10, 11] objs ([10, 10, 11] ! 1) = (objs ([10, 10, 11] ! 1))\<lparr>ev_declIndex := 1\<rparr>"
    for objs
    by (rule init_events_last) (auto simp: less_Suc_eq nth_Cons')
  then show ?thesis
    by (simp add: PrtInitialize_def program_of_def nEvents_def ex_shared_memory_def ex_memory_def)
qed

text \<open>
  Claim C9, amended. \<^verbatim>\<open>PrtInitialize\<close> leaves the three tables as they are, and every
  declaration carries the index of the last position from which its table points to it.
  So when the entries of a table are pairwise distinct declarations, the indices of that
  table are dense: event \<open>i\<close> has \<open>declIndex = i\<close> for every \<open>i\<close> below the number of
  events, and likewise for the machines and for the foreign types.
\<close>

theorem PrtInitialize_declIndex_last_position:
  "eventTable (fst (PrtInitialize m)) = eventTable m
   \<and> machineTable (fst (PrtInitialize m)) = machineTable m
   \<and> foreignTypeTable (fst (PrtInitialize m)) = foreignTypeTable m
   \<and> (\<forall>j < length (eventTable m).
         (\<forall>k. j < k \<and> k < length (eventTable m) \<longrightarrow> eventTable m ! k \<noteq> eventTable m ! j) \<longrightarrow>
         ev_declIndex (eventObjects (fst (PrtInitialize m)) (eventTable m ! j)) = j)
   \<and> (\<forall>j < length (machineTable m).
         (\<forall>k. j < k \<and> k < length (machineTable m) \<longrightarrow> machineTable m ! k \<noteq> machineTable m ! j) \<longrightarrow>
         m_declIndex (machineObjects (fst (PrtInitialize m)) (machineTable m ! j)) = j)
   \<and> (\<forall>j < length (foreignTypeTable m).
         (\<forall>k. j < k \<and> k < length (foreignTypeTable m) \<longrightarrow>
              foreignTypeTable m ! k \<noteq> foreignTypeTable m ! j) \<longrightarrow>
         ft_declIndex (foreignTypeObjects (fst (PrtInitialize m)) (foreignTypeTable m ! j)) = j)
   \<and> (distinct (eventTable m) \<longrightarrow>
         (\<forall>i < nEvents (program_of (fst (PrtInitialize m))).
            ev_declIndex (events (program_of (fst (PrtInitialize m))) ! i) = i))
   \<and> (distinct (machineTable m) \<longrightarrow>
         (\<forall>j < nMachines (program_of (fst (PrtInitialize m))).
            m_declIndex (machines (program_of (fst (PrtInitialize m))) ! j) = j))
   \<and> (distinct (foreignTypeTable m) \<longrightarrow>
         (\<forall>k < nForeignTypes (program_of (fst (PrtInitialize m))).
            ft_declIndex (foreignTypes (program_of (fst (PrtInitialize m))) ! k) = k))"
  by (simp add: PrtInitialize_def program_of_def nEvents_def nMachines_def nForeignTypes_def
        init_events_last init_machines_last init_foreignTypes_last distinct_no_later)

text \<open>The example memory starts with the indices 5 and 9, 3, and 4; its tables have no
  declaration twice. In the memory with the shared declaration, position 1 is the last
  one that points to address 10.\<close>

theorem PrtInitialize_declIndex_last_position_witness:
  "distinct (eventTable ex_memory) \<and> distinct (machineTable ex_memory)
   \<and> distinct (foreignTypeTable ex_memory)
   \<and> ev_declIndex (events (program_of ex_memory) ! 1) = 9
   \<and> ev_declIndex (events (program_of (fst (PrtInitialize ex_memory))) ! 1) = 1
   \<and> m_declIndex (machines (program_of (fst (PrtInitialize ex_memory))) ! 5) = 5
   \<and> ft_declIndex (foreignTypes (program_of (fst (PrtInitialize ex_memory))) ! 0) = 0
   \<and> ev_declIndex (eventObjects (fst (PrtInitialize ex_shared_memory)) 10) = 1"
proof -
  have d: "distinct (eventTable ex_memory)" "distinct (machineTable ex_memory)"
    "distinct (foreignTypeTable ex_memory)"
    by (simp_all add: ex_memory_def)
  have n: "nEvents (program_of (fst (PrtInitialize ex_memory))) = 2"
    "nMachines (program_of (fst (PrtInitialize ex_memory))) = 6"
    "nForeignTypes (program_of (fst (PrtInitialize ex_memory))) = 1"
    by (simp_all add: PrtInitialize_def program_of_def nEvents_def nMachines_def
          nForeignTypes_def ex_memory_def)
  note t = PrtInitialize_declIndex_last_position [of ex_memory]
  note u = PrtInitialize_declIndex_last_position [of ex_shared_memory]
  have a: "ev_declIndex (events (program_of (fst (PrtInitialize ex_memory))) ! 1) = 1"
    using t d n by simp
  have b: "m_declIndex (machines (program_of (fst (PrtInitialize ex_memory))) ! 5) = 5"
    using t d n by simp
  have c: "ft_declIndex (foreignTypes (program_of (fst (PrtInitialize ex_memory))) ! 0) = 0"
    using t d n by simp
  have e: "ev_declIndex (events (program_of ex_memory) ! 1) = 9"
    by (simp add: program_of_def ex_memory_def ex_program_def)
  have l: "\<forall>k. 1 < k \<and> k < length (eventTable ex_shared_memory) \<longrightarrow>
             eventTable ex_shared_memory ! k \<noteq> eventTable ex_shared_memory ! 1"
    by (auto simp: ex_shared_memory_def ex_memory_def less_Suc_eq nth_Cons')
  have f: "ev_declIndex (eventObjects (fst (PrtInitialize ex_shared_memory)) 10) = 1"
    using u [THEN conjunct2, THEN conjunct2, THEN conjunct2, THEN conjunct1, THEN spec, of 1] l
    by (simp add: ex_shared_memory_def ex_memory_def)
  show ?thesis using d a b c e f by simp
qed

section \<open>Properties of PrtGetMachine\<close>

text \<open>
  Claim C5. For a value of kind machine id, \<^verbatim>\<open>PrtGetMachine\<close> asserts
  \<open>0 < machineId \<le> numMachines\<close>; when the assertion holds, the position
  \<open>machineId - 1\<close> lies inside the machine table and the instance stored there is
  returned; when it fails, the result is the failed assertion. A value of any other kind
  fails the first assertion.
\<close>

theorem PrtGetMachine_bounds_checked:
  "PrtGetMachine p (MidValue g n) =
     (if 0 < n \<and> n \<le> numMachines p then Inr (proc_machines p ! (n - 1))
      else Inl (AssertFailed ''id out of bounds''))
   \<and> (0 < n \<and> n \<le> numMachines p \<longrightarrow> n - 1 < length (proc_machines p))
   \<and> (discriminator v \<noteq> PRT_VALUE_KIND_MID \<longrightarrow>
        PrtGetMachine p v = Inl (AssertFailed ''id is not legal PRT_MACHINEID''))"
  by (auto simp: PrtGetMachine_def numMachines_def)

theorem PrtGetMachine_bounds_checked_witness:
  "PrtGetMachine ex_process (MidValue 1 2) = Inr (ex_inst 2)
   \<and> PrtGetMachine ex_process (MidValue 1 3) = Inl (AssertFailed ''id out of bounds'')
   \<and> PrtGetMachine ex_process (MidValue 1 0) = Inl (AssertFailed ''id out of bounds'')
   \<and> PrtGetMachine ex_process (IntValue 2) = Inl (AssertFailed ''id is not legal PRT_MACHINEID'')"
  using PrtGetMachine_bounds_checked [of ex_process 1 2 "IntValue 2"]
    PrtGetMachine_bounds_checked [of ex_process 1 3 "IntValue 2"]
    PrtGetMachine_bounds_checked [of ex_process 1 0 "IntValue 2"]
  by (simp add: ex_process_def numMachines_def)

text \<open>
  Claim C6, as stated, does not hold: the assertion that compares the GUID of the process
  with the GUID inside the machine id is commented out. The process below has GUID 1,
  the machine id carries GUID 2, and the instance is returned.
\<close>

theorem PrtGetMachine_guid_counterexample:
  "guid ex_process \<noteq> 2 \<and> PrtGetMachine ex_process (MidValue 2 1) = Inr (ex_inst 1)"
  by (simp add: PrtGetMachine_def ex_process_def numMachines_def PrtStartProcess_def)

text \<open>
  Claim C6, amended. \<^verbatim>\<open>PrtGetMachine\<close> does not look at the GUID inside the machine id:
  the result is the one for the process's own GUID, so a machine id of another process
  with \<open>0 < machineId \<le> numMachines\<close> yields the instance at position \<open>machineId - 1\<close>.
\<close>

theorem PrtGetMachine_ignores_guid:
  "PrtGetMachine p (MidValue g n) = PrtGetMachine p (MidValue (guid p) n)
   \<and> (0 < n \<and> n \<le> numMachines p \<longrightarrow>
        PrtGetMachine p (MidValue g n) = Inr (proc_machines p ! (n - 1)))"
  by (simp add: PrtGetMachine_def)

theorem PrtGetMachine_ignores_guid_witness:
  "guid ex_process \<noteq> 7 \<and> PrtGetMachine ex_process (MidValue 7 2) = Inr (ex_inst 2)"
  using PrtGetMachine_ignores_guid [of ex_process 7 2, THEN conjunct2]
  by (simp add: ex_process_def numMachines_def PrtStartProcess_def)

section \<open>Properties of PrtSetSchedulingPolicy\<close>

lemma alloc_simps:
  "fst (alloc h x) = length h" "snd (alloc h x) = h @ [Some x]"
  by (simp_all add: alloc_def)

lemma cell_append_new: "cell (h @ [Some x]) (length h) = Some x"
  by (simp add: cell_def)

lemma cell_append_old: "a < length h \<Longrightarrow> cell (h @ [y]) a = cell h a"
  by (simp add: cell_def nth_append)

lemma cell_fresh: "cell h (length h) = None"
  by (simp add: cell_def)

lemma cell_release_same: "cell (release h a) a = None"
  by (simp add: cell_def release_def)

lemma cell_release_other: "a \<noteq> b \<Longrightarrow> cell (release h a) b = cell h b"
  by (simp add: cell_def release_def)

lemma cell_release_None: "cell h b = None \<Longrightarrow> cell (release h a) b = None"
  by (cases "a = b") (simp_all add: cell_release_same cell_release_other)

text \<open>
  Claim C7, as stated, does not hold. The field \<^verbatim>\<open>schedulingPolicy\<close> is assigned before
  the policy is tested: when the value 2 is rejected for the example process, whose
  policy is \<open>TASKNEUTRAL\<close>, the process is left with the policy 2; and asked for
  the policy 2 once more, the function finds nothing to change and accepts it.
\<close>

theorem PrtSetSchedulingPolicy_counterexample:
  "PrtSetSchedulingPolicy (PRT_SCHEDULINGPOLICY_OTHER 2) ex_state =
     Inl (AssertFailed policy_message,
          ex_state\<lparr>proc := (proc ex_state)\<lparr>schedulingPolicy := PRT_SCHEDULINGPOLICY_OTHER 2\<rparr>\<rparr>)
   \<and> schedulingPolicy (proc ex_state) = PRT_SCHEDULINGPOLICY_TASKNEUTRAL
   \<and> PrtSetSchedulingPolicy (PRT_SCHEDULINGPOLICY_OTHER 2)
        (ex_state\<lparr>proc := (proc ex_state)\<lparr>schedulingPolicy := PRT_SCHEDULINGPOLICY_OTHER 2\<rparr>\<rparr>) =
      Inr (ex_state\<lparr>proc := (proc ex_state)\<lparr>schedulingPolicy := PRT_SCHEDULINGPOLICY_OTHER 2\<rparr>\<rparr>)"
  by (simp add: PrtSetSchedulingPolicy_def ex_state_def ex_process_def PrtStartProcess_def
        policy_message_def)

text \<open>
  Claim C7, amended. Setting the policy the process already has changes nothing. A value
  other than the two named policies, and other than the current policy, is rejected by
  the assertion, and the memory at that moment differs from the memory before the call
  at most in the field \<^verbatim>\<open>schedulingPolicy\<close>. Switching from \<open>COOPERATIVE\<close> to
  \<open>TASKNEUTRAL\<close> destroys the two semaphores of the cooperative record, frees the record
  and sets the scheduler-info pointer to null. Switching to \<open>COOPERATIVE\<close> allocates a
  new record with no waiting thread and two new semaphores with count 0.
\<close>

theorem PrtSetSchedulingPolicy_cases:
  "(schedulingPolicy (proc s) = policy \<longrightarrow> PrtSetSchedulingPolicy policy s = Inr s)
   \<and> (schedulingPolicy (proc s) \<noteq> PRT_SCHEDULINGPOLICY_OTHER n \<longrightarrow>
        (\<exists>s'. PrtSetSchedulingPolicy (PRT_SCHEDULINGPOLICY_OTHER n) s = Inl (AssertFailed policy_message, s')
              \<and> s'\<lparr>proc := (proc s')\<lparr>schedulingPolicy := schedulingPolicy (proc s)\<rparr>\<rparr> = s))
   \<and> (schedulingPolicy (proc s) = PRT_SCHEDULINGPOLICY_COOPERATIVE
        \<and> schedulerInfo (proc s) = Some i \<and> cell (schedulers s) i = Some r \<longrightarrow>
        (\<exists>s'. PrtSetSchedulingPolicy PRT_SCHEDULINGPOLICY_TASKNEUTRAL s = Inr s'
              \<and> schedulingPolicy (proc s') = PRT_SCHEDULINGPOLICY_TASKNEUTRAL
              \<and> schedulerInfo (proc s') = None
              \<and> cell (schedulers s') i = None
              \<and> cell (semaphores s') (workAvailable r) = None
              \<and> cell (semaphores s') (allThreadsStopped r) = None))
   \<and> (schedulingPolicy (proc s) \<noteq> PRT_SCHEDULINGPOLICY_COOPERATIVE \<longrightarrow>
        (\<exists>s' j q. PrtSetSchedulingPolicy PRT_SCHEDULINGPOLICY_COOPERATIVE s = Inr s'
              \<and> schedulingPolicy (proc s') = PRT_SCHEDULINGPOLICY_COOPERATIVE
              \<and> schedulerInfo (proc s') = Some j
              \<and> cell (schedulers s) j = None
              \<and> cell (schedulers s') j = Some q
              \<and> threadsWaiting q = 0
              \<and> workAvailable q \<noteq> allThreadsStopped q
              \<and> cell (semaphores s) (workAvailable q) = None
              \<and> cell (semaphores s) (allThreadsStopped q) = None
              \<and> cell (semaphores s') (workAvailable q) = Some \<lparr>sem_count = 0, sem_max = 32767\<rparr>
              \<and> cell (semaphores s') (allThreadsStopped q) = Some \<lparr>sem_count = 0, sem_max = 32767\<rparr>))"
proof (intro conjI impI)
  assume "schedulingPolicy (proc s) = policy"
  then show "PrtSetSchedulingPolicy policy s = Inr s"
    by (simp add: PrtSetSchedulingPolicy_def)
next
  assume "schedulingPolicy (proc s) \<noteq> PRT_SCHEDULINGPOLICY_OTHER n"
  then show "\<exists>s'. PrtSetSchedulingPolicy (PRT_SCHEDULINGPOLICY_OTHER n) s = Inl (AssertFailed policy_message, s')
              \<and> s'\<lparr>proc := (proc s')\<lparr>schedulingPolicy := schedulingPolicy (proc s)\<rparr>\<rparr> = s"
    by (simp add: PrtSetSchedulingPolicy_def policy_message_def)
next
  assume h: "schedulingPolicy (proc s) = PRT_SCHEDULINGPOLICY_COOPERATIVE
        \<and> schedulerInfo (proc s) = Some i \<and> cell (schedulers s) i = Some r"
  then show "\<exists>s'. PrtSetSchedulingPolicy PRT_SCHEDULINGPOLICY_TASKNEUTRAL s = Inr s'
              \<and> schedulingPolicy (proc s') = PRT_SCHEDULINGPOLICY_TASKNEUTRAL
              \<and> schedulerInfo (proc s') = None
              \<and> cell (schedulers s') i = None
              \<and> cell (semaphores s') (workAvailable r) = None
              \<and> cell (semaphores s') (allThreadsStopped r) = None"
    by (simp add: PrtSetSchedulingPolicy_def PrtDestroyCooperativeScheduler_def
          PrtDestroySemaphore_def cell_release_same cell_release_None)
next
  assume "schedulingPolicy (proc s) \<noteq> PRT_SCHEDULINGPOLICY_COOPERATIVE"
  then show "\<exists>s' j q. PrtSetSchedulingPolicy PRT_SCHEDULINGPOLICY_COOPERATIVE s = Inr s'
              \<and> schedulingPolicy (proc s') = PRT_SCHEDULINGPOLICY_COOPERATIVE
              \<and> schedulerInfo (proc s') = Some j
              \<and> cell (schedulers s) j = None
              \<and> cell (schedulers s') j = Some q
              \<and> threadsWaiting q = 0
              \<and> workAvailable q \<noteq> allThreadsStopped q
              \<and> cell (semaphores s) (workAvailable q) = None
              \<and> cell (semaphores s) (allThreadsStopped q) = None
              \<and> cell (semaphores s') (workAvailable q) = Some \<lparr>sem_count = 0, sem_max = 32767\<rparr>
              \<and> cell (semaphores s') (allThreadsStopped q) = Some \<lparr>sem_count = 0, sem_max = 32767\<rparr>"
    by (simp add: PrtSetSchedulingPolicy_def PrtCreateSemaphore_def alloc_def cell_def nth_append)
qed

theorem PrtSetSchedulingPolicy_cases_witness:
  "PrtSetSchedulingPolicy PRT_SCHEDULINGPOLICY_COOPERATIVE ex_state = Inr ex_coop_state
   \<and> PrtSetSchedulingPolicy PRT_SCHEDULINGPOLICY_COOPERATIVE ex_coop_state = Inr ex_coop_state
   \<and> PrtSetSchedulingPolicy PRT_SCHEDULINGPOLICY_TASKNEUTRAL ex_coop_state =
        Inr (ex_state\<lparr>semaphores := [None, None], schedulers := [None]\<rparr>)
   \<and> PrtSetSchedulingPolicy (PRT_SCHEDULINGPOLICY_OTHER 5) ex_coop_state =
        Inl (AssertFailed policy_message,
             ex_coop_state\<lparr>proc := (proc ex_coop_state)\<lparr>schedulingPolicy := PRT_SCHEDULINGPOLICY_OTHER 5\<rparr>\<rparr>)"
  using PrtSetSchedulingPolicy_cases [of ex_coop_state PRT_SCHEDULINGPOLICY_COOPERATIVE 5 0
      "\<lparr>workAvailable = 0, threadsWaiting = 0, allThreadsStopped = 1\<rparr>"]
    PrtSetSchedulingPolicy_cases [of ex_state PRT_SCHEDULINGPOLICY_TASKNEUTRAL 5 0
      "\<lparr>workAvailable = 0, threadsWaiting = 0, allThreadsStopped = 1\<rparr>"]
  by (simp add: PrtSetSchedulingPolicy_def PrtDestroyCooperativeScheduler_def
        PrtDestroySemaphore_def PrtCreateSemaphore_def alloc_def release_def cell_def
        ex_coop_state_def ex_state_def ex_process_def PrtStartProcess_def policy_message_def)

section \<open>Properties of PrtRunProcess\<close>

lemma run_spec_imp_run:
  "run_spec step wait yield w w' \<Longrightarrow> PrtRunProcess step wait yield w = Some w'"
  by (induction rule: run_spec.induct) (simp_all add: PrtRunProcess.simps [of step wait yield])

lemma run_imp_run_spec:
  "PrtRunProcess step wait yield w = Some w' \<Longrightarrow> run_spec step wait yield w w'"
proof (induction step wait yield w w' rule: PrtRunProcess.raw_induct [rotated, consumes 1])
  case (1 run step wait yield w w')
  obtain r w1 where st: "step w = (r, w1)" by (cases "step w")
  show ?case
  proof (cases r)
    case PRT_STEP_TERMINATING
    with 1(2) st show ?thesis by (auto intro: run_spec.on_terminating)
  next
    case PRT_STEP_IDLE
    obtain b w2 where wt: "wait w1 = (b, w2)" by (cases "wait w1")
    show ?thesis
    proof (cases b)
      case True
      with 1(2) st wt PRT_STEP_IDLE show ?thesis by (auto intro: run_spec.on_idle_stop)
    next
      case False
      with 1(2) st wt PRT_STEP_IDLE have "run step wait yield w2 = Some w'" by simp
      then have "run_spec step wait yield w2 w'" by (rule 1(1))
      with st wt False PRT_STEP_IDLE show ?thesis by (auto intro: run_spec.on_idle_continue)
    qed
  next
    case PRT_STEP_MORE
    with 1(2) st have "run step wait yield (yield w1) = Some w'" by simp
    then have "run_spec step wait yield (yield w1) w'" by (rule 1(1))
    with st PRT_STEP_MORE show ?thesis by (auto intro: run_spec.on_more)
  qed
qed

text \<open>
  Claim C8. \<^verbatim>\<open>PrtRunProcess\<close> returns in the state \<open>w'\<close> exactly when the loop that the
  specification describes returns in \<open>w'\<close>: after a step with result \<open>MORE\<close> the thread
  is yielded and the loop goes on, after \<open>IDLE\<close> the worker waits for work and returns
  only if the wait reports termination, and after \<open>TERMINATING\<close> it returns at once.
\<close>

theorem PrtRunProcess_follows_loop:
  "PrtRunProcess step wait yield w = Some w' \<longleftrightarrow> run_spec step wait yield w w'"
  by (rule iffI [OF run_imp_run_spec run_spec_imp_run])

theorem PrtRunProcess_follows_loop_witness:
  "PrtRunProcess ex_step ex_wait ex_yield 0 = Some 6
   \<and> PrtRunProcess ex_step ex_wait ex_yield 7 = Some 107"
proof -
  have a: "run_spec ex_step ex_wait ex_yield 4 6"
    by (rule run_spec.on_idle_stop [where ?w1.0 = 5]) (simp_all add: ex_step_def ex_wait_def)
  have b: "run_spec ex_step ex_wait ex_yield 2 6"
    by (rule run_spec.on_idle_continue [where ?w1.0 = 3, OF _ _ a])
       (simp_all add: ex_step_def ex_wait_def)
  have c: "run_spec ex_step ex_wait ex_yield 0 6"
  proof (rule run_spec.on_more [where ?w1.0 = 1])
    show "ex_step 0 = (PRT_STEP_MORE, 1)" by (simp add: ex_step_def)
    have "ex_yield 1 = 2" by (simp add: ex_yield_def)
    with b show "run_spec ex_step ex_wait ex_yield (ex_yield 1) 6" by simp
  qed
  have d: "run_spec ex_step ex_wait ex_yield 7 107"
    by (rule run_spec.on_terminating) (simp add: ex_step_def)
  show ?thesis
    using c d PrtRunProcess_follows_loop [of ex_step ex_wait ex_yield 0 6]
      PrtRunProcess_follows_loop [of ex_step ex_wait ex_yield 7 107]
    by simp
qed

section \<open>Properties of the variadic argument intake\<close>

lemma cell_append_live: "cell h a = Some v \<Longrightarrow> cell (h @ xs) a = Some v"
  by (auto simp: cell_def nth_append split: if_splits)

lemma cell_append_below: "a < length h \<Longrightarrow> cell (h @ xs) a = cell h a"
  by (simp add: cell_def nth_append)

lemma clone_live_append: "clone_live h v \<Longrightarrow> clone_live (h @ xs) v"
  by (induction h v rule: clone_live.induct) (auto simp: cell_append_live)

lemma clones_live_append: "clones_live h vs \<Longrightarrow> clones_live (h @ xs) vs"
  by (simp add: clones_live_def list_all_iff clone_live_append)

lemma clones_live_Cons [simp]: "clones_live h (v # vs) \<longleftrightarrow> clone_live h v \<and> clones_live h vs"
  by (simp add: clones_live_def)

lemma clones_live_Nil [simp]: "clones_live h []"
  by (simp add: clones_live_def)

lemma collect_args_swap:
  "clones_live (heap s) pre \<Longrightarrow>
     collect_args fn (pre @ SwapArg # post) acc s = Inl (AssertFailed (''Illegal parameter type in '' @ fn))"
proof (induction pre arbitrary: acc s)
  case Nil
  then show ?case by simp
next
  case (Cons v pre)
  show ?case
  proof (cases v)
    case (CloneArg c)
    with Cons.prems obtain a w where c: "c = Some a" and w: "cell (heap s) a = Some w"
      by (cases c) auto
    have "clones_live (heap (s\<lparr>heap := heap s @ [Some w]\<rparr>)) pre"
      using Cons.prems by (simp add: clones_live_append)
    from Cons.IH [OF this] show ?thesis
      using CloneArg c w by (simp add: PrtCloneValue_def alloc_def)
  next
    case SwapArg
    then show ?thesis by simp
  next
    case (MoveArg x)
    have "clones_live (heap (s\<lparr>vars := (vars s)(x := None)\<rparr>)) pre"
      using Cons.prems by simp
    from Cons.IH [OF this] show ?thesis
      using MoveArg by simp
  qed
qed

lemma collect_args_swap_fails:
  "SwapArg \<in> set vs \<Longrightarrow> \<exists>e. collect_args fn vs acc s = Inl e"
proof (induction vs arbitrary: acc s)
  case Nil
  then show ?case by simp
next
  case (Cons v vs)
  show ?case
  proof (cases v)
    case (CloneArg c)
    then show ?thesis using Cons
      by (auto simp: PrtCloneValue_def alloc_def split: option.splits)
  next
    case SwapArg
    then show ?thesis by simp
  next
    case (MoveArg x)
    then show ?thesis using Cons by auto
  qed
qed

lemma collect_args_CloneE:
  assumes "collect_args fn (CloneArg c # rest) acc s = Inr r"
  obtains a w where "c = Some a" and "cell (heap s) a = Some w"
    and "collect_args fn rest (acc @ [Some (length (heap s))]) (s\<lparr>heap := heap s @ [Some w]\<rparr>) = Inr r"
  using assms by (auto simp: PrtCloneValue_def alloc_def split: option.splits)

lemma collect_args_frame:
  "collect_args fn vs acc s = Inr (args, s1) \<Longrightarrow>
     proc s1 = proc s \<and> semaphores s1 = semaphores s \<and> schedulers s1 = schedulers s"
proof (induction vs arbitrary: acc s)
  case Nil
  then show ?case by simp
next
  case (Cons v vs)
  show ?case
  proof (cases v)
    case (CloneArg c)
    from Cons.prems [unfolded CloneArg] obtain a w where
      "c = Some a" and "cell (heap s) a = Some w" and
      rest: "collect_args fn vs (acc @ [Some (length (heap s))]) (s\<lparr>heap := heap s @ [Some w]\<rparr>)
               = Inr (args, s1)"
      by (rule collect_args_CloneE)
    from Cons.IH [OF rest] show ?thesis
      using CloneArg by auto
  next
    case SwapArg
    with Cons.prems show ?thesis by simp
  next
    case (MoveArg x)
    with Cons.prems show ?thesis by (auto dest!: Cons.IH)
  qed
qed

lemma collect_args_vars:
  "collect_args fn vs acc s = Inr (args, s1) \<Longrightarrow>
     vars s1 = (\<lambda>x. if MoveArg x \<in> set vs then None else vars s x)"
proof (induction vs arbitrary: acc s)
  case Nil
  then show ?case by simp
next
  case (Cons v vs)
  show ?case
  proof (cases v)
    case (CloneArg c)
    from Cons.prems [unfolded CloneArg] obtain a w where
      "c = Some a" and "cell (heap s) a = Some w" and
      rest: "collect_args fn vs (acc @ [Some (length (heap s))]) (s\<lparr>heap := heap s @ [Some w]\<rparr>)
               = Inr (args, s1)"
      by (rule collect_args_CloneE)
    from Cons.IH [OF rest] show ?thesis
      using CloneArg by auto
  next
    case SwapArg
    with Cons.prems show ?thesis by simp
  next
    case (MoveArg x)
    with Cons.prems show ?thesis by (auto dest!: Cons.IH simp: fun_eq_iff)
  qed
qed

lemma collect_args_heap:
  "collect_args fn vs acc s = Inr (args, s1) \<Longrightarrow>
     \<exists>new. heap s1 = heap s @ new
        \<and> length new = length (filter (\<lambda>v. argStatus v = PRT_FUN_PARAM_CLONE) vs)"
proof (induction vs arbitrary: acc s)
  case Nil
  then show ?case by simp
next
  case (Cons v vs)
  show ?case
  proof (cases v)
    case (CloneArg c)
    from Cons.prems [unfolded CloneArg] obtain a w where
      "c = Some a" and "cell (heap s) a = Some w" and
      rest: "collect_args fn vs (acc @ [Some (length (heap s))]) (s\<lparr>heap := heap s @ [Some w]\<rparr>)
               = Inr (args, s1)"
      by (rule collect_args_CloneE)
    from Cons.IH [OF rest] show ?thesis
      using CloneArg by auto
  next
    case SwapArg
    with Cons.prems show ?thesis by simp
  next
    case (MoveArg x)
    with Cons.prems show ?thesis by (auto dest!: Cons.IH)
  qed
qed

lemma collect_args_args:
  "collect_args fn vs acc s = Inr (args, s1) \<Longrightarrow>
     \<exists>rest. args = acc @ rest \<and> length rest = length vs"
proof (induction vs arbitrary: acc s)
  case Nil
  then show ?case by simp
next
  case (Cons v vs)
  show ?case
  proof (cases v)
    case (CloneArg c)
    from Cons.prems [unfolded CloneArg] obtain a w where
      "c = Some a" and "cell (heap s) a = Some w" and
      rest: "collect_args fn vs (acc @ [Some (length (heap s))]) (s\<lparr>heap := heap s @ [Some w]\<rparr>)
               = Inr (args, s1)"
      by (rule collect_args_CloneE)
    from Cons.IH [OF rest] show ?thesis
      using CloneArg by auto
  next
    case SwapArg
    with Cons.prems show ?thesis by simp
  next
    case (MoveArg x)
    with Cons.prems show ?thesis by (auto dest!: Cons.IH)
  qed
qed

lemma collect_args_length:
  "collect_args fn vs [] s = Inr (args, s1) \<Longrightarrow> length args = length vs"
  by (drule collect_args_args) auto


lemma collect_args_nth:
  "collect_args fn vs acc s = Inr (args, s1) \<Longrightarrow> i < length vs \<Longrightarrow>
     (case vs ! i of
        CloneArg c \<Rightarrow>
          (\<exists>a v b. c = Some a \<and> cell (heap s1) a = Some v \<and> args ! (length acc + i) = Some b
                    \<and> length (heap s) \<le> b \<and> cell (heap s1) b = Some v)
      | SwapArg \<Rightarrow> False
      | MoveArg x \<Rightarrow>
          args ! (length acc + i) = (if MoveArg x \<in> set (take i vs) then None else vars s x))"
proof (induction vs arbitrary: acc s i)
  case Nil
  then show ?case by simp
next
  case (Cons v vs)
  show ?case
  proof (cases v)
    case (CloneArg c)
    from Cons.prems(1) [unfolded CloneArg] obtain a w where
      c: "c = Some a" and w: "cell (heap s) a = Some w" and
      rest: "collect_args fn vs (acc @ [Some (length (heap s))]) (s\<lparr>heap := heap s @ [Some w]\<rparr>)
               = Inr (args, s1)"
      by (rule collect_args_CloneE)
    from collect_args_args [OF rest] obtain r where
      args: "args = (acc @ [Some (length (heap s))]) @ r" by blast
    from collect_args_heap [OF rest] obtain new where
      h1: "heap s1 = (heap s @ [Some w]) @ new" by auto
    show ?thesis
    proof (cases i)
      case 0
      have "cell (heap s1) a = Some w"
        using w h1 by (simp add: cell_append_live)
      moreover have "cell (heap s1) (length (heap s)) = Some w"
        using h1 by (simp add: cell_def nth_append)
      moreover have "args ! length acc = Some (length (heap s))"
        using args by (simp add: nth_append)
      ultimately show ?thesis using 0 CloneArg c by simp
    next
      case (Suc j)
      with Cons.prems(2) have j: "j < length vs" by simp
      from Cons.IH [OF rest j] show ?thesis
        using Suc CloneArg by (auto split: fun_arg.splits)
    qed
  next
    case SwapArg
    with Cons.prems show ?thesis by simp
  next
    case (MoveArg y)
    from Cons.prems(1) [unfolded MoveArg] have
      rest: "collect_args fn vs (acc @ [vars s y]) (s\<lparr>vars := (vars s)(y := None)\<rparr>) = Inr (args, s1)"
      by simp
    from collect_args_args [OF rest] obtain r where
      args: "args = (acc @ [vars s y]) @ r" by blast
    show ?thesis
    proof (cases i)
      case 0
      have "args ! length acc = vars s y"
        using args by (simp add: nth_append)
      then show ?thesis using 0 MoveArg by simp
    next
      case (Suc j)
      with Cons.prems(2) have j: "j < length vs" by simp
      from Cons.IH [OF rest j] show ?thesis
        using Suc MoveArg by (auto split: fun_arg.splits)
    qed
  qed
qed

lemma deref_all_Some:
  "deref_all h ps = Some vs \<Longrightarrow>
     length vs = length ps \<and> (\<forall>i < length ps. \<exists>a. ps ! i = Some a \<and> cell h a = Some (vs ! i))"
proof (induction h ps arbitrary: vs rule: deref_all.induct)
  case (1 h)
  then show ?case by simp
next
  case (2 h ps)
  then show ?case by simp
next
  case (3 h a ps)
  from "3.prems" obtain v vs' where v: "cell h a = Some v" and d: "deref_all h ps = Some vs'"
    and vs: "vs = v # vs'"
    by (auto split: option.splits)
  from "3.IH" [OF v d] have ih: "length vs' = length ps"
    "\<forall>i < length ps. \<exists>a. ps ! i = Some a \<and> cell h a = Some (vs' ! i)" by auto
  show ?case
  proof (intro conjI allI impI)
    show "length vs = length (Some a # ps)" using ih vs by simp
  next
    fix i assume "i < length (Some a # ps)"
    then show "\<exists>b. (Some a # ps) ! i = Some b \<and> cell h b = Some (vs ! i)"
      using ih v vs by (cases i) auto
  qed
qed

subsection \<open>The four functions and the payload\<close>

lemma PrtSend_payload:
  "PrtSend SP ss r ev vargs s =
     (case make_payload ''PrtSend'' (\<lambda>prog. PrtGetPayloadType prog r ev) vargs s of
        Inl e \<Rightarrow> Inl e
      | Inr (p, s2) \<Rightarrow> SP ss r ev p s2)"
  by (simp add: PrtSend_def make_payload_def split: sum.splits prod.splits)

lemma PrtSendInternal_payload:
  "PrtSendInternal SP sender r ev vargs s =
     (case PrtGetMachineState (program (proc s)) sender of
        Inl e \<Rightarrow> Inl e
      | Inr ss \<Rightarrow>
          (case make_payload ''PrtSendInternal'' (\<lambda>prog. PrtGetPayloadType prog r ev) vargs s of
             Inl e \<Rightarrow> Inl e
           | Inr (p, s2) \<Rightarrow> SP ss r ev p s2))"
  by (simp add: PrtSendInternal_def make_payload_def split: sum.splits prod.splits)

lemma PrtMkMachine_payload:
  "PrtMkMachine MK name vargs s =
     (case make_payload ''PrtMkMachine''
             (entry_payload_type (machineDefMap (program (proc s)) name)) vargs s of
        Inl e \<Rightarrow> Inl e
      | Inr (p, s2) \<Rightarrow> create_and_free MK name (machineDefMap (program (proc s)) name) p s2)"
  by (simp add: PrtMkMachine_def make_payload_def entry_payload_type_def create_and_free_def
        Let_def split: sum.splits prod.splits)

lemma PrtMkSymbolicMachine_payload:
  "PrtMkSymbolicMachine MK creator k vargs s =
     (case make_payload ''PrtMkSymbolicMachine''
             (entry_payload_type
                (machineDefMap (program (proc s)) (linkMap (program (proc s)) (symbolicName creator) k)))
             vargs s of
        Inl e \<Rightarrow> Inl e
      | Inr (p, s2) \<Rightarrow>
          create_and_free MK (linkMap (program (proc s)) (symbolicName creator) k)
            (machineDefMap (program (proc s)) (linkMap (program (proc s)) (symbolicName creator) k))
            p s2)"
  by (simp add: PrtMkSymbolicMachine_def make_payload_def entry_payload_type_def
        create_and_free_def Let_def split: sum.splits prod.splits)

lemma make_payload_Nil:
  "make_payload fn gt [] s = Inr (Some (length (heap s)), s\<lparr>heap := heap s @ [Some NullValue]\<rparr>)"
  by (simp add: make_payload_def PrtMkNullValue_def alloc_def)

lemma make_payload_Move:
  "make_payload fn gt [MoveArg x] s = Inr (vars s x, s\<lparr>vars := (vars s)(x := None)\<rparr>)"
  by (simp add: make_payload_def)

lemma make_payload_Clone:
  "make_payload fn gt [CloneArg c] s =
     (case c of
        None \<Rightarrow> Inl Fault
      | Some a \<Rightarrow>
          (case cell (heap s) a of
             None \<Rightarrow> Inl Fault
           | Some v \<Rightarrow> Inr (Some (length (heap s)), s\<lparr>heap := heap s @ [Some v]\<rparr>)))"
  by (simp add: make_payload_def PrtCloneValue_def alloc_def split: option.splits)

lemma make_payload_swap:
  "clones_live (heap s) pre \<Longrightarrow>
     make_payload fn gt (pre @ SwapArg # post) s = Inl (AssertFailed (''Illegal parameter type in '' @ fn))"
  by (simp add: make_payload_def collect_args_swap)

lemma make_payload_swap_fails:
  "SwapArg \<in> set vargs \<Longrightarrow> \<exists>e. make_payload fn gt vargs s = Inl e"
proof -
  assume a: "SwapArg \<in> set vargs"
  then have "vargs \<noteq> []" by auto
  moreover from a obtain e where "collect_args fn vargs [] s = Inl e"
    using collect_args_swap_fails by blast
  ultimately show ?thesis by (simp add: make_payload_def)
qed


lemma make_payload_cases:
  assumes "make_payload fn gt vargs s = Inr (p, s2)"
  obtains
    (zero) "vargs = []" "p = Some (length (heap s))" "s2 = s\<lparr>heap := heap s @ [Some NullValue]\<rparr>"
  | (one) args where "length vargs = 1" "collect_args fn vargs [] s = Inr (args, s2)" "p = args ! 0"
  | (many) args s1 ty vs where "1 < length vargs" "collect_args fn vargs [] s = Inr (args, s1)"
      "gt (program (proc s1)) = Inr (Some ty)" "deref_all (heap s1) args = Some vs"
      "p = Some (length (heap s1))" "s2 = s1\<lparr>heap := heap s1 @ [Some (TupleValue ty vs)]\<rparr>"
proof (cases "length vargs = 0")
  case True
  with assms show ?thesis
    by (intro zero) (auto simp: make_payload_def PrtMkNullValue_def alloc_def)
next
  case False
  with assms obtain args s1 where c: "collect_args fn vargs [] s = Inr (args, s1)"
    by (auto simp: make_payload_def split: sum.splits)
  show ?thesis
  proof (cases "1 < length vargs")
    case True
    with assms c False obtain pt a h where
      g: "gt (program (proc s1)) = Inr pt" and m: "MakeTupleFromArray pt args (heap s1) = Inr (a, h)"
      and p: "p = Some a" and s2: "s2 = s1\<lparr>heap := h\<rparr>"
      by (auto simp: make_payload_def split: sum.splits)
    from m obtain ty vs where "pt = Some ty" "deref_all (heap s1) args = Some vs"
      "a = length (heap s1)" "h = heap s1 @ [Some (TupleValue ty vs)]"
      by (auto simp: MakeTupleFromArray_def alloc_def split: option.splits)
    with True c g p s2 show ?thesis by (intro many) auto
  next
    case f: False
    with False have "length vargs = 1" by (cases vargs) auto
    moreover from assms c False f have "p = args ! 0" "s2 = s1"
      by (auto simp: make_payload_def)
    ultimately show ?thesis using c by (intro one) auto
  qed
qed


lemma make_payload_vars:
  assumes "make_payload fn gt vargs s = Inr (p, s2)"
  shows "vars s2 = (\<lambda>x. if MoveArg x \<in> set vargs then None else vars s x)"
  using assms
proof (cases rule: make_payload_cases)
  case zero
  then show ?thesis by simp
next
  case (one args)
  then show ?thesis using collect_args_vars by blast
next
  case (many args s1 ty vs)
  then show ?thesis using collect_args_vars [of fn vargs "[]" s args s1] by simp
qed

lemma make_payload_heap:
  assumes "make_payload fn gt vargs s = Inr (p, s2)"
  shows "\<exists>new. heap s2 = heap s @ new
           \<and> length new = length (filter (\<lambda>v. argStatus v = PRT_FUN_PARAM_CLONE) vargs)
                            + (if length vargs = 1 then 0 else 1)"
  using assms
proof (cases rule: make_payload_cases)
  case zero
  then show ?thesis by simp
next
  case (one args)
  then show ?thesis using collect_args_heap [of fn vargs "[]" s args s2] by simp
next
  case (many args s1 ty vs)
  from collect_args_heap [OF many(2)] obtain new where
    "heap s1 = heap s @ new"
    "length new = length (filter (\<lambda>v. argStatus v = PRT_FUN_PARAM_CLONE) vargs)" by blast
  with many show ?thesis by simp
qed

lemma make_payload_old_cells:
  assumes "make_payload fn gt vargs s = Inr (p, s2)" and "a < length (heap s)"
  shows "cell (heap s2) a = cell (heap s) a"
proof -
  from make_payload_heap [OF assms(1)] obtain new where "heap s2 = heap s @ new" by blast
  with assms(2) show ?thesis by (simp add: cell_append_below)
qed

lemma make_payload_tuple:
  assumes "make_payload fn gt vargs s = Inr (p, s2)" and "1 < length vargs"
  shows "\<exists>ty a vs. gt (program (proc s)) = Inr (Some ty) \<and> p = Some a \<and> cell (heap s) a = None
           \<and> cell (heap s2) a = Some (TupleValue ty vs) \<and> length vs = length vargs
           \<and> (\<forall>i < length vargs.
                 case vargs ! i of
                   CloneArg c \<Rightarrow> (\<exists>a'. c = Some a' \<and> cell (heap s2) a' = Some (vs ! i))
                 | SwapArg \<Rightarrow> False
                 | MoveArg x \<Rightarrow> (\<exists>b. vars s x = Some b \<and> cell (heap s2) b = Some (vs ! i)))"
  using assms(1)
proof (cases rule: make_payload_cases)
  case zero
  with assms(2) show ?thesis by simp
next
  case (one args)
  with assms(2) show ?thesis by simp
next
  case (many args s1 ty vs)
  have pr: "proc s1 = proc s" using collect_args_frame [OF many(2)] by simp
  from collect_args_heap [OF many(2)] obtain new where h1: "heap s1 = heap s @ new" by blast
  have len: "length args = length vargs" using collect_args_length [OF many(2)] .
  from deref_all_Some [OF many(4)] have lv: "length vs = length args"
    and el: "\<forall>i < length args. \<exists>a. args ! i = Some a \<and> cell (heap s1) a = Some (vs ! i)" by auto
  have up: "\<And>b w. cell (heap s1) b = Some w \<Longrightarrow> cell (heap s2) b = Some w"
    using many(6) by (simp add: cell_append_live)
  have fresh: "cell (heap s) (length (heap s1)) = None"
    using h1 by (simp add: cell_def)
  have new: "cell (heap s2) (length (heap s1)) = Some (TupleValue ty vs)"
    using many(6) by (simp add: cell_def)
  have each: "case vargs ! i of
                   CloneArg c \<Rightarrow> (\<exists>a'. c = Some a' \<and> cell (heap s2) a' = Some (vs ! i))
                 | SwapArg \<Rightarrow> False
                 | MoveArg x \<Rightarrow> (\<exists>b. vars s x = Some b \<and> cell (heap s2) b = Some (vs ! i))"
    if i: "i < length vargs" for i
  proof -
    from el i len obtain ai where ai: "args ! i = Some ai" "cell (heap s1) ai = Some (vs ! i)"
      by auto
    from collect_args_nth [OF many(2) i] show ?thesis
    proof (cases "vargs ! i")
      case (CloneArg c)
      with collect_args_nth [OF many(2) i] obtain a' v b where
        "c = Some a'" "cell (heap s1) a' = Some v" "args ! i = Some b" "cell (heap s1) b = Some v"
        by auto
      with ai have "c = Some a'" "cell (heap s1) a' = Some (vs ! i)" by auto
      with CloneArg up show ?thesis by auto
    next
      case SwapArg
      with collect_args_nth [OF many(2) i] show ?thesis by simp
    next
      case (MoveArg x)
      with collect_args_nth [OF many(2) i] ai have "vars s x = Some ai"
        by (auto split: if_splits)
      with MoveArg ai up show ?thesis by auto
    qed
  qed
  show ?thesis
    using many(3,5) pr fresh new lv len each by auto
qed

lemmas ex_defs = ex_state_def ex_process_def ex_program_def ex_machine_def ex_fun_def ex_inst_def
  ex_sender_state_def PrtStartProcess_def ex_args_def ex_after_def ex_child_def ex_created_def

lemmas op_defs = PrtSend_def PrtSendInternal_def PrtMkMachine_def PrtMkSymbolicMachine_def
  PrtGetMachineState_def PrtGetCurrentStateDecl_def PrtGetPayloadType_def MakeTupleFromArray_def
  PrtCloneValue_def PrtFreeValue_def PrtMkNullValue_def PrtMkMachinePrivate_def
  send_call_def mk_call_def alloc_def release_def cell_def clones_live_def
  nMachines_def nEvents_def Let_def



subsection \<open>Well-formed arguments are taken in\<close>

lemma collect_args_succeeds:
  "\<forall>v \<in> set vs. v \<noteq> SwapArg \<and> clone_live (heap s) v \<Longrightarrow>
     \<exists>args s1. collect_args fn vs acc s = Inr (args, s1)"
proof (induction vs arbitrary: acc s)
  case Nil
  then show ?case by simp
next
  case (Cons v vs)
  show ?case
  proof (cases v)
    case (CloneArg c)
    with Cons.prems obtain a w where c: "c = Some a" and w: "cell (heap s) a = Some w"
      by (cases c) auto
    have "\<forall>v \<in> set vs. v \<noteq> SwapArg \<and> clone_live (heap (s\<lparr>heap := heap s @ [Some w]\<rparr>)) v"
      using Cons.prems by (simp add: clone_live_append)
    from Cons.IH [OF this] show ?thesis
      using CloneArg c w by (simp add: PrtCloneValue_def alloc_def)
  next
    case SwapArg
    with Cons.prems show ?thesis by simp
  next
    case (MoveArg x)
    have "\<forall>v \<in> set vs. v \<noteq> SwapArg \<and> clone_live (heap (s\<lparr>vars := (vars s)(x := None)\<rparr>)) v"
      using Cons.prems by simp
    from Cons.IH [OF this] show ?thesis
      using MoveArg by simp
  qed
qed

lemma arg_ok_clone_live: "arg_ok s v \<Longrightarrow> v \<noteq> SwapArg \<and> clone_live (heap s) v"
  by (induction s v rule: arg_ok.induct) auto

lemma moved_vars_append: "moved_vars (xs @ ys) = moved_vars xs @ moved_vars ys"
  by (induction xs rule: moved_vars.induct) auto

lemma MoveArg_in_moved_vars: "MoveArg x \<in> set vs \<Longrightarrow> x \<in> set (moved_vars vs)"
  by (induction vs rule: moved_vars.induct) auto

lemma moved_not_earlier:
  assumes "distinct (moved_vars vs)" and "i < length vs" and "vs ! i = MoveArg x"
  shows "MoveArg x \<notin> set (take i vs)"
proof -
  have "vs = take i vs @ MoveArg x # drop (Suc i) vs"
    using assms(2,3) by (metis id_take_nth_drop)
  then have "moved_vars vs = moved_vars (take i vs) @ x # moved_vars (drop (Suc i) vs)"
    by (metis moved_vars_append moved_vars.simps(2))
  with assms(1) have "x \<notin> set (moved_vars (take i vs))" by auto
  then show ?thesis using MoveArg_in_moved_vars by blast
qed

lemma deref_all_succeeds:
  "\<forall>i < length ps. \<exists>a v. ps ! i = Some a \<and> cell h a = Some v \<Longrightarrow> \<exists>vs. deref_all h ps = Some vs"
proof (induction h ps rule: deref_all.induct)
  case (1 h)
  then show ?case by simp
next
  case (2 h ps)
  then show ?case by auto
next
  case (3 h a ps)
  from "3.prems" have "\<exists>a' v. (Some a # ps) ! 0 = Some a' \<and> cell h a' = Some v" by blast
  then obtain v where v: "cell h a = Some v" by auto
  have "\<forall>i < length ps. \<exists>a v. ps ! i = Some a \<and> cell h a = Some v"
  proof (intro allI impI)
    fix i assume "i < length ps"
    then have "Suc i < length (Some a # ps)" by simp
    with "3.prems" have "\<exists>a' v. (Some a # ps) ! Suc i = Some a' \<and> cell h a' = Some v" by blast
    then show "\<exists>a v. ps ! i = Some a \<and> cell h a = Some v" by simp
  qed
  from "3.IH" [OF v this] v show ?case by auto
qed

lemma collect_args_all_live:
  assumes ok: "args_ok s vs" and c: "collect_args fn vs [] s = Inr (args, s1)"
  shows "\<forall>i < length args. \<exists>a v. args ! i = Some a \<and> cell (heap s1) a = Some v"
proof (intro allI impI)
  fix i assume "i < length args"
  with collect_args_length [OF c] have i: "i < length vs" by simp
  from collect_args_heap [OF c] obtain new where h1: "heap s1 = heap s @ new" by blast
  from ok i have aok: "arg_ok s (vs ! i)" by (simp add: args_ok_def list_all_length)
  show "\<exists>a v. args ! i = Some a \<and> cell (heap s1) a = Some v"
  proof (cases "vs ! i")
    case (CloneArg c')
    with collect_args_nth [OF c i] show ?thesis by auto
  next
    case SwapArg
    with collect_args_nth [OF c i] show ?thesis by simp
  next
    case (MoveArg x)
    from ok have "distinct (moved_vars vs)" by (simp add: args_ok_def)
    from moved_not_earlier [OF this i MoveArg] collect_args_nth [OF c i] MoveArg
    have "args ! i = vars s x" by simp
    moreover from aok MoveArg obtain b v where "vars s x = Some b" "cell (heap s) b = Some v"
      by (auto split: option.splits)
    ultimately show ?thesis using h1 by (auto simp: cell_append_live)
  qed
qed

lemma make_payload_succeeds:
  assumes ok: "args_ok s vargs"
    and ty: "1 < length vargs \<longrightarrow> (\<exists>ty. gt (program (proc s)) = Inr (Some ty))"
  shows "\<exists>b s1 v. make_payload fn gt vargs s = Inr (Some b, s1) \<and> cell (heap s1) b = Some v"
proof -
  have pre: "\<forall>v \<in> set vargs. v \<noteq> SwapArg \<and> clone_live (heap s) v"
    using ok by (auto simp: args_ok_def list_all_iff dest: arg_ok_clone_live)
  from collect_args_succeeds [OF pre] obtain args s1 where
    c: "collect_args fn vargs [] s = Inr (args, s1)" by blast
  from collect_args_all_live [OF ok c]
  have live: "\<forall>i < length args. \<exists>a v. args ! i = Some a \<and> cell (heap s1) a = Some v" .
  have len: "length args = length vargs" by (rule collect_args_length [OF c])
  have pr: "proc s1 = proc s" using collect_args_frame [OF c] by simp
  consider (zero) "vargs = []" | (one) "length vargs = 1" | (many) "1 < length vargs"
    by (cases vargs; cases "tl vargs") auto
  then show ?thesis
  proof cases
    case zero
    then show ?thesis by (simp add: make_payload_Nil cell_def)
  next
    case one
    with live len obtain a v where "args ! 0 = Some a" "cell (heap s1) a = Some v" by auto
    moreover from one have "vargs \<noteq> []" by auto
    ultimately show ?thesis using one c by (simp add: make_payload_def)
  next
    case many
    with ty obtain t where t: "gt (program (proc s)) = Inr (Some t)" by blast
    from deref_all_succeeds [OF live] obtain vs where d: "deref_all (heap s1) args = Some vs" by blast
    have "cell (heap s1 @ [Some (TupleValue t vs)]) (length (heap s1)) = Some (TupleValue t vs)"
      by (simp add: cell_def)
    moreover from many have "vargs \<noteq> []" by auto
    ultimately show ?thesis using many c t d pr
      by (simp add: make_payload_def MakeTupleFromArray_def alloc_def)
  qed
qed

lemma send_call_succeeds:
  assumes "args_ok s vargs"
    and "1 < length vargs \<longrightarrow> (\<exists>ty. PrtGetPayloadType (program (proc s)) r ev = Inr (Some ty))"
  shows "\<exists>p s1. PrtSend send_call ss r ev vargs s = Inr (ss, r, ev, p, s1)"
proof -
  from make_payload_succeeds [OF assms(1), of "\<lambda>prog. PrtGetPayloadType prog r ev" "''PrtSend''"] assms(2)
  obtain b s1 where "make_payload ''PrtSend'' (\<lambda>prog. PrtGetPayloadType prog r ev) vargs s = Inr (Some b, s1)"
    by auto
  then show ?thesis by (simp add: PrtSend_payload send_call_def)
qed

lemma create_and_free_mk_call_succeeds:
  "cell (heap s1) b = Some v \<Longrightarrow>
     create_and_free mk_call q i (Some b) s1 = Inr ((q, i, Some b, s1), s1\<lparr>heap := release (heap s1) b\<rparr>)"
  by (simp add: create_and_free_def mk_call_def PrtFreeValue_def)

lemma mk_call_succeeds:
  assumes "args_ok s vargs"
    and "1 < length vargs \<longrightarrow>
           (\<exists>ty. entry_payload_type (machineDefMap (program (proc s)) name) (program (proc s)) = Inr (Some ty))"
  shows "\<exists>p s1 s2. PrtMkMachine mk_call name vargs s
                      = Inr ((name, machineDefMap (program (proc s)) name, p, s1), s2)"
proof -
  from make_payload_succeeds [OF assms(1),
      of "entry_payload_type (machineDefMap (program (proc s)) name)" "''PrtMkMachine''"] assms(2)
  obtain b s1 v where "make_payload ''PrtMkMachine''
      (entry_payload_type (machineDefMap (program (proc s)) name)) vargs s = Inr (Some b, s1)"
    "cell (heap s1) b = Some v"
    by auto
  then show ?thesis
    by (simp add: PrtMkMachine_payload create_and_free_mk_call_succeeds)
qed

lemma mk_symbolic_call_succeeds:
  assumes "args_ok s vargs"
    and "1 < length vargs \<longrightarrow>
           (\<exists>ty. entry_payload_type
                   (machineDefMap (program (proc s)) (linkMap (program (proc s)) (symbolicName creator) k))
                   (program (proc s)) = Inr (Some ty))"
  shows "\<exists>p s1 s2. PrtMkSymbolicMachine mk_call creator k vargs s
                      = Inr ((linkMap (program (proc s)) (symbolicName creator) k,
                              machineDefMap (program (proc s))
                                (linkMap (program (proc s)) (symbolicName creator) k), p, s1), s2)"
proof -
  let ?i = "machineDefMap (program (proc s)) (linkMap (program (proc s)) (symbolicName creator) k)"
  from make_payload_succeeds [OF assms(1), of "entry_payload_type ?i" "''PrtMkSymbolicMachine''"]
    assms(2)
  obtain b s1 v where
    "make_payload ''PrtMkSymbolicMachine'' (entry_payload_type ?i) vargs s = Inr (Some b, s1)"
    "cell (heap s1) b = Some v"
    by auto
  then show ?thesis
    by (simp add: PrtMkSymbolicMachine_payload create_and_free_mk_call_succeeds)
qed

subsection \<open>Arguments and payloads of the calls\<close>

lemma send_call_reaches:
  "PrtSend send_call ss r ev vargs s = Inr (ss', r', ev', p, s1) \<Longrightarrow>
     make_payload ''PrtSend'' (\<lambda>prog. PrtGetPayloadType prog r ev) vargs s = Inr (p, s1)"
  by (auto simp: PrtSend_payload send_call_def split: sum.splits)

lemma create_and_free_mk_call:
  "create_and_free mk_call q' i' p' s' = Inr ((q, i, p, s1), s2) \<Longrightarrow>
     q = q' \<and> i = i' \<and> p = p' \<and> s1 = s'"
  by (auto simp: create_and_free_def mk_call_def split: sum.splits)

lemma mk_call_reaches:
  "PrtMkMachine mk_call name vargs s = Inr ((q, i, p, s1), s2) \<Longrightarrow>
     q = name \<and> i = machineDefMap (program (proc s)) name
     \<and> make_payload ''PrtMkMachine'' (entry_payload_type (machineDefMap (program (proc s)) name)) vargs s
         = Inr (p, s1)"
  by (auto simp: PrtMkMachine_payload split: sum.splits dest!: create_and_free_mk_call)

lemma mk_symbolic_call_reaches:
  "PrtMkSymbolicMachine mk_call creator k vargs s = Inr ((q, i, p, s1), s2) \<Longrightarrow>
     q = linkMap (program (proc s)) (symbolicName creator) k
     \<and> i = machineDefMap (program (proc s)) q
     \<and> make_payload ''PrtMkSymbolicMachine'' (entry_payload_type i) vargs s = Inr (p, s1)"
  by (auto simp: PrtMkSymbolicMachine_payload split: sum.splits dest!: create_and_free_mk_call)

text \<open>
  Claim C10. With no variadic argument, \<^verbatim>\<open>PrtSend\<close>, \<^verbatim>\<open>PrtMkMachine\<close> and
  \<^verbatim>\<open>PrtMkSymbolicMachine\<close> hand to \<^verbatim>\<open>PrtSendPrivate\<close> or \<^verbatim>\<open>PrtMkMachinePrivate\<close> a
  payload pointer that is not null and points to a cell that did not exist before the call
  and now holds the null value.
\<close>

theorem zero_args_fresh_null_payload:
  "PrtSend SP ss r ev [] s =
     SP ss r ev (Some (length (heap s))) (s\<lparr>heap := heap s @ [Some NullValue]\<rparr>)
   \<and> PrtMkMachine MK name [] s =
       create_and_free MK name (machineDefMap (program (proc s)) name)
         (Some (length (heap s))) (s\<lparr>heap := heap s @ [Some NullValue]\<rparr>)
   \<and> PrtMkSymbolicMachine MK creator k [] s =
       create_and_free MK (linkMap (program (proc s)) (symbolicName creator) k)
         (machineDefMap (program (proc s)) (linkMap (program (proc s)) (symbolicName creator) k))
         (Some (length (heap s))) (s\<lparr>heap := heap s @ [Some NullValue]\<rparr>)
   \<and> cell (heap s) (length (heap s)) = None
   \<and> cell (heap s @ [Some NullValue]) (length (heap s)) = Some NullValue"
  by (simp add: PrtSend_payload PrtMkMachine_payload PrtMkSymbolicMachine_payload
        make_payload_Nil cell_def)

text \<open>
  Claim C4. An argument with status \<^verbatim>\<open>PRT_FUN_PARAM_SWAP\<close> at any position: when the
  arguments before it are taken in (the pointers passed by copy are alive), each of
  \<^verbatim>\<open>PrtSend\<close>, \<^verbatim>\<open>PrtSendInternal\<close> (for a sender whose state can be read),
  \<^verbatim>\<open>PrtMkMachine\<close> and \<^verbatim>\<open>PrtMkSymbolicMachine\<close> stops with the failed assertion
  "Illegal parameter type in" followed by its name; and whatever the other arguments are,
  none of the four returns normally.
\<close>

theorem swap_status_rejected:
  "(clones_live (heap s) pre \<longrightarrow>
      PrtSend SP ss r ev (pre @ SwapArg # post) s
        = Inl (AssertFailed ''Illegal parameter type in PrtSend'')
      \<and> (\<forall>st. PrtGetMachineState (program (proc s)) sender = Inr st \<longrightarrow>
            PrtSendInternal SP sender r ev (pre @ SwapArg # post) s
              = Inl (AssertFailed ''Illegal parameter type in PrtSendInternal''))
      \<and> PrtMkMachine MK name (pre @ SwapArg # post) s
          = Inl (AssertFailed ''Illegal parameter type in PrtMkMachine'')
      \<and> PrtMkSymbolicMachine MK creator k (pre @ SwapArg # post) s
          = Inl (AssertFailed ''Illegal parameter type in PrtMkSymbolicMachine''))
   \<and> (SwapArg \<in> set vargs \<longrightarrow>
        (\<exists>e. PrtSend SP ss r ev vargs s = Inl e)
        \<and> (\<exists>e. PrtSendInternal SP sender r ev vargs s = Inl e)
        \<and> (\<exists>e. PrtMkMachine MK name vargs s = Inl e)
        \<and> (\<exists>e. PrtMkSymbolicMachine MK creator k vargs s = Inl e))"
proof (intro conjI impI allI)
  assume live: "clones_live (heap s) pre"
  show "PrtSend SP ss r ev (pre @ SwapArg # post) s
          = Inl (AssertFailed ''Illegal parameter type in PrtSend'')"
    using make_payload_swap [OF live, of "''PrtSend''"] by (simp add: PrtSend_payload)
  show "PrtMkMachine MK name (pre @ SwapArg # post) s
          = Inl (AssertFailed ''Illegal parameter type in PrtMkMachine'')"
    using make_payload_swap [OF live, of "''PrtMkMachine''"] by (simp add: PrtMkMachine_payload)
  show "PrtMkSymbolicMachine MK creator k (pre @ SwapArg # post) s
          = Inl (AssertFailed ''Illegal parameter type in PrtMkSymbolicMachine'')"
    using make_payload_swap [OF live, of "''PrtMkSymbolicMachine''"]
    by (simp add: PrtMkSymbolicMachine_payload)
  fix st assume "PrtGetMachineState (program (proc s)) sender = Inr st"
  then show "PrtSendInternal SP sender r ev (pre @ SwapArg # post) s
          = Inl (AssertFailed ''Illegal parameter type in PrtSendInternal'')"
    using make_payload_swap [OF live, of "''PrtSendInternal''"]
    by (simp add: PrtSendInternal_payload)
next
  assume sw: "SwapArg \<in> set vargs"
  show "\<exists>e. PrtSend SP ss r ev vargs s = Inl e"
    using make_payload_swap_fails [OF sw, of "''PrtSend''" "\<lambda>prog. PrtGetPayloadType prog r ev" s]
    by (auto simp: PrtSend_payload)
  show "\<exists>e. PrtSendInternal SP sender r ev vargs s = Inl e"
    using make_payload_swap_fails [OF sw, of "''PrtSendInternal''" "\<lambda>prog. PrtGetPayloadType prog r ev" s]
    by (auto simp: PrtSendInternal_payload split: sum.splits)
  show "\<exists>e. PrtMkMachine MK name vargs s = Inl e"
    using make_payload_swap_fails [OF sw, of "''PrtMkMachine''"
        "entry_payload_type (machineDefMap (program (proc s)) name)" s]
    by (auto simp: PrtMkMachine_payload)
  show "\<exists>e. PrtMkSymbolicMachine MK creator k vargs s = Inl e"
    using make_payload_swap_fails [OF sw, of "''PrtMkSymbolicMachine''"
        "entry_payload_type (machineDefMap (program (proc s))
            (linkMap (program (proc s)) (symbolicName creator) k))" s]
    by (auto simp: PrtMkSymbolicMachine_payload)
qed

text \<open>
  The four functions on the example memory, with a swap as third argument.
\<close>

theorem swap_status_rejected_witness:
  "PrtSend send_call ex_sender_state (ex_inst 2) (EventValue 1)
       [CloneArg (Some 0), MoveArg 1, SwapArg, CloneArg (Some 1)] ex_state
     = Inl (AssertFailed ''Illegal parameter type in PrtSend'')
   \<and> PrtSendInternal send_call (ex_inst 1) (ex_inst 2) (EventValue 1)
       [CloneArg (Some 0), MoveArg 1, SwapArg, CloneArg (Some 1)] ex_state
     = Inl (AssertFailed ''Illegal parameter type in PrtSendInternal'')
   \<and> PrtMkMachine mk_call 3 [CloneArg (Some 0), MoveArg 1, SwapArg, CloneArg (Some 1)] ex_state
     = Inl (AssertFailed ''Illegal parameter type in PrtMkMachine'')
   \<and> PrtMkSymbolicMachine mk_call (ex_inst 2) 3
       [CloneArg (Some 0), MoveArg 1, SwapArg, CloneArg (Some 1)] ex_state
     = Inl (AssertFailed ''Illegal parameter type in PrtMkSymbolicMachine'')"
proof -
  have live: "clones_live (heap ex_state) [CloneArg (Some 0), MoveArg 1]"
    by (simp add: clones_live_def cell_def ex_state_def)
  have st: "PrtGetMachineState (program (proc ex_state)) (ex_inst 1) = Inr ex_sender_state"
    by (simp add: ex_defs op_defs)
  note r = swap_status_rejected [where s = ex_state and pre = "[CloneArg (Some 0), MoveArg 1]"
      and post = "[CloneArg (Some 1)]" and SP = send_call and ss = ex_sender_state
      and r = "ex_inst 2" and ev = "EventValue 1" and sender = "ex_inst 1" and MK = mk_call
      and name = 3 and creator = "ex_inst 2" and k = 3 and vargs = "[SwapArg]",
      THEN conjunct1, THEN mp, OF live]
  from r st show ?thesis by simp
qed

lemma intake_facts:
  assumes mp: "make_payload fn gt vargs s = Inr (p, s1)"
  shows "(\<forall>x. MoveArg x \<in> set vargs \<longrightarrow> vars s1 x = None)
   \<and> (\<forall>x. MoveArg x \<notin> set vargs \<longrightarrow> vars s1 x = vars s x)
   \<and> (\<forall>a < length (heap s). cell (heap s1) a = cell (heap s) a)
   \<and> length (heap s1) = length (heap s)
        + length (filter (\<lambda>v. argStatus v = PRT_FUN_PARAM_CLONE) vargs)
        + (if length vargs = 1 then 0 else 1)
   \<and> (\<forall>x. vargs = [MoveArg x] \<longrightarrow> p = vars s x \<and> heap s1 = heap s)
   \<and> (\<forall>c. vargs = [CloneArg c] \<longrightarrow>
         (\<exists>a v. c = Some a \<and> cell (heap s) a = Some v \<and> p = Some (length (heap s))
                \<and> heap s1 = heap s @ [Some v]))
   \<and> (1 < length vargs \<longrightarrow>
         (\<exists>a ty vs. p = Some a \<and> cell (heap s1) a = Some (TupleValue ty vs)
            \<and> (\<forall>i < length vargs.
                  (\<forall>c. vargs ! i = CloneArg c \<longrightarrow>
                        (\<exists>a'. c = Some a' \<and> cell (heap s1) a' = Some (vs ! i)))
                  \<and> (\<forall>x. vargs ! i = MoveArg x \<longrightarrow>
                        (\<exists>b. vars s x = Some b \<and> cell (heap s1) b = Some (vs ! i))))))"
proof (intro conjI)
  show "\<forall>x. MoveArg x \<in> set vargs \<longrightarrow> vars s1 x = None"
    by (simp add: make_payload_vars [OF mp])
  show "\<forall>x. MoveArg x \<notin> set vargs \<longrightarrow> vars s1 x = vars s x"
    by (simp add: make_payload_vars [OF mp])
  show "\<forall>a < length (heap s). cell (heap s1) a = cell (heap s) a"
    using make_payload_old_cells [OF mp] by blast
  show "length (heap s1) = length (heap s)
        + length (filter (\<lambda>v. argStatus v = PRT_FUN_PARAM_CLONE) vargs)
        + (if length vargs = 1 then 0 else 1)"
    using make_payload_heap [OF mp] by auto
  show "\<forall>x. vargs = [MoveArg x] \<longrightarrow> p = vars s x \<and> heap s1 = heap s"
    using mp by (auto simp: make_payload_Move)
  show "\<forall>c. vargs = [CloneArg c] \<longrightarrow>
         (\<exists>a v. c = Some a \<and> cell (heap s) a = Some v \<and> p = Some (length (heap s))
                \<and> heap s1 = heap s @ [Some v])"
    using mp by (auto simp: make_payload_Clone split: option.splits)
  show "1 < length vargs \<longrightarrow>
         (\<exists>a ty vs. p = Some a \<and> cell (heap s1) a = Some (TupleValue ty vs)
            \<and> (\<forall>i < length vargs.
                  (\<forall>c. vargs ! i = CloneArg c \<longrightarrow>
                        (\<exists>a'. c = Some a' \<and> cell (heap s1) a' = Some (vs ! i)))
                  \<and> (\<forall>x. vargs ! i = MoveArg x \<longrightarrow>
                        (\<exists>b. vars s x = Some b \<and> cell (heap s1) b = Some (vs ! i)))))"
  proof
    assume "1 < length vargs"
    from make_payload_tuple [OF mp this] obtain ty a vs where
      t: "p = Some a" "cell (heap s1) a = Some (TupleValue ty vs)"
      and e: "\<forall>i < length vargs.
                 case vargs ! i of
                   CloneArg c \<Rightarrow> (\<exists>a'. c = Some a' \<and> cell (heap s1) a' = Some (vs ! i))
                 | SwapArg \<Rightarrow> False
                 | MoveArg x \<Rightarrow> (\<exists>b. vars s x = Some b \<and> cell (heap s1) b = Some (vs ! i))"
      by blast
    have "\<forall>i < length vargs.
                  (\<forall>c. vargs ! i = CloneArg c \<longrightarrow>
                        (\<exists>a'. c = Some a' \<and> cell (heap s1) a' = Some (vs ! i)))
                  \<and> (\<forall>x. vargs ! i = MoveArg x \<longrightarrow>
                        (\<exists>b. vars s x = Some b \<and> cell (heap s1) b = Some (vs ! i)))"
      using e by (auto split: fun_arg.splits)
    with t show "\<exists>a ty vs. p = Some a \<and> cell (heap s1) a = Some (TupleValue ty vs)
            \<and> (\<forall>i < length vargs.
                  (\<forall>c. vargs ! i = CloneArg c \<longrightarrow>
                        (\<exists>a'. c = Some a' \<and> cell (heap s1) a' = Some (vs ! i)))
                  \<and> (\<forall>x. vargs ! i = MoveArg x \<longrightarrow>
                        (\<exists>b. vars s x = Some b \<and> cell (heap s1) b = Some (vs ! i))))"
      by blast
  qed
qed

text \<open>
  Claim C3. For a well-formed list of arguments (and, with more than one argument, a
  payload type for the tuple), \<^verbatim>\<open>PrtSend\<close>, \<^verbatim>\<open>PrtMkMachine\<close> and
  \<^verbatim>\<open>PrtMkSymbolicMachine\<close> each take the arguments in and reach their call. And
  whenever one of the three reaches its call with the payload \<open>p\<close> in the memory \<open>s1\<close>:
  every variable passed by move is null and every other variable is as it was; every value
  that existed before the call is unchanged, so the values passed by copy are; the heap
  has grown by one cell for each argument passed by copy (and one for the tuple or the
  null value), so nothing is copied for a move; a single moved argument is the payload
  itself, a single copied argument gives a payload in a new cell with the same content;
  and element \<open>i\<close> of a tuple is the content of the value passed by copy, or of the
  value the moved variable pointed to.
\<close>

theorem move_and_clone_intake:
  "(args_ok s vargs \<longrightarrow>
      ((1 < length vargs \<longrightarrow> (\<exists>ty. PrtGetPayloadType (program (proc s)) r ev = Inr (Some ty))) \<longrightarrow>
         (\<exists>p s1. PrtSend send_call ss r ev vargs s = Inr (ss, r, ev, p, s1)))
      \<and> ((1 < length vargs \<longrightarrow>
             (\<exists>ty. entry_payload_type (machineDefMap (program (proc s)) name) (program (proc s))
                     = Inr (Some ty))) \<longrightarrow>
         (\<exists>p s1 s2. PrtMkMachine mk_call name vargs s
                      = Inr ((name, machineDefMap (program (proc s)) name, p, s1), s2)))
      \<and> ((1 < length vargs \<longrightarrow>
             (\<exists>ty. entry_payload_type
                     (machineDefMap (program (proc s))
                        (linkMap (program (proc s)) (symbolicName creator) k))
                     (program (proc s)) = Inr (Some ty))) \<longrightarrow>
         (\<exists>p s1 s2. PrtMkSymbolicMachine mk_call creator k vargs s
                      = Inr ((linkMap (program (proc s)) (symbolicName creator) k,
                              machineDefMap (program (proc s))
                                (linkMap (program (proc s)) (symbolicName creator) k), p, s1), s2))))
   \<and> (PrtSend send_call ss r ev vargs s = Inr (ss', r', ev', p, s1)
        \<or> PrtMkMachine mk_call name vargs s = Inr ((q, i, p, s1), s2)
        \<or> PrtMkSymbolicMachine mk_call creator k vargs s = Inr ((q, i, p, s1), s2) \<longrightarrow>
      (\<forall>x. MoveArg x \<in> set vargs \<longrightarrow> vars s1 x = None)
      \<and> (\<forall>x. MoveArg x \<notin> set vargs \<longrightarrow> vars s1 x = vars s x)
      \<and> (\<forall>a < length (heap s). cell (heap s1) a = cell (heap s) a)
      \<and> length (heap s1) = length (heap s)
           + length (filter (\<lambda>v. argStatus v = PRT_FUN_PARAM_CLONE) vargs)
           + (if length vargs = 1 then 0 else 1)
      \<and> (\<forall>x. vargs = [MoveArg x] \<longrightarrow> p = vars s x \<and> heap s1 = heap s)
      \<and> (\<forall>c. vargs = [CloneArg c] \<longrightarrow>
            (\<exists>a v. c = Some a \<and> cell (heap s) a = Some v \<and> p = Some (length (heap s))
                   \<and> heap s1 = heap s @ [Some v]))
      \<and> (1 < length vargs \<longrightarrow>
            (\<exists>a ty vs. p = Some a \<and> cell (heap s1) a = Some (TupleValue ty vs)
               \<and> (\<forall>i < length vargs.
                     (\<forall>c. vargs ! i = CloneArg c \<longrightarrow>
                           (\<exists>a'. c = Some a' \<and> cell (heap s1) a' = Some (vs ! i)))
                     \<and> (\<forall>x. vargs ! i = MoveArg x \<longrightarrow>
                           (\<exists>b. vars s x = Some b \<and> cell (heap s1) b = Some (vs ! i)))))))"
proof (intro conjI impI)
  assume ok: "args_ok s vargs"
  {
    assume "1 < length vargs \<longrightarrow> (\<exists>ty. PrtGetPayloadType (program (proc s)) r ev = Inr (Some ty))"
    with ok show "\<exists>p s1. PrtSend send_call ss r ev vargs s = Inr (ss, r, ev, p, s1)"
      by (rule send_call_succeeds)
  }
  {
    assume "1 < length vargs \<longrightarrow>
             (\<exists>ty. entry_payload_type (machineDefMap (program (proc s)) name) (program (proc s))
                     = Inr (Some ty))"
    with ok show "\<exists>p s1 s2. PrtMkMachine mk_call name vargs s
                      = Inr ((name, machineDefMap (program (proc s)) name, p, s1), s2)"
      by (rule mk_call_succeeds)
  }
  {
    assume "1 < length vargs \<longrightarrow>
             (\<exists>ty. entry_payload_type
                     (machineDefMap (program (proc s))
                        (linkMap (program (proc s)) (symbolicName creator) k))
                     (program (proc s)) = Inr (Some ty))"
    with ok show "\<exists>p s1 s2. PrtMkSymbolicMachine mk_call creator k vargs s
                      = Inr ((linkMap (program (proc s)) (symbolicName creator) k,
                              machineDefMap (program (proc s))
                                (linkMap (program (proc s)) (symbolicName creator) k), p, s1), s2)"
      by (rule mk_symbolic_call_succeeds)
  }
next
  assume a: "PrtSend send_call ss r ev vargs s = Inr (ss', r', ev', p, s1)
        \<or> PrtMkMachine mk_call name vargs s = Inr ((q, i, p, s1), s2)
        \<or> PrtMkSymbolicMachine mk_call creator k vargs s = Inr ((q, i, p, s1), s2)"
  then have "\<exists>fn gt. make_payload fn gt vargs s = Inr (p, s1)"
  proof (elim disjE)
    assume "PrtSend send_call ss r ev vargs s = Inr (ss', r', ev', p, s1)"
    from send_call_reaches [OF this] show ?thesis by blast
  next
    assume "PrtMkMachine mk_call name vargs s = Inr ((q, i, p, s1), s2)"
    from mk_call_reaches [OF this] show ?thesis by blast
  next
    assume "PrtMkSymbolicMachine mk_call creator k vargs s = Inr ((q, i, p, s1), s2)"
    from mk_symbolic_call_reaches [OF this] show ?thesis by blast
  qed
  then obtain fn gt where mp: "make_payload fn gt vargs s = Inr (p, s1)" by blast
  note f = intake_facts [OF mp]
  show "\<forall>x. MoveArg x \<in> set vargs \<longrightarrow> vars s1 x = None" using f by blast
  show "\<forall>x. MoveArg x \<notin> set vargs \<longrightarrow> vars s1 x = vars s x" using f by blast
  show "\<forall>a < length (heap s). cell (heap s1) a = cell (heap s) a" using f by blast
  show "length (heap s1) = length (heap s)
           + length (filter (\<lambda>v. argStatus v = PRT_FUN_PARAM_CLONE) vargs)
           + (if length vargs = 1 then 0 else 1)" using f by blast
  show "\<forall>x. vargs = [MoveArg x] \<longrightarrow> p = vars s x \<and> heap s1 = heap s" using f by blast
  show "\<forall>c. vargs = [CloneArg c] \<longrightarrow>
            (\<exists>a v. c = Some a \<and> cell (heap s) a = Some v \<and> p = Some (length (heap s))
                   \<and> heap s1 = heap s @ [Some v])" using f by blast
  assume "1 < length vargs"
  with f show "\<exists>a ty vs. p = Some a \<and> cell (heap s1) a = Some (TupleValue ty vs)
               \<and> (\<forall>i < length vargs.
                     (\<forall>c. vargs ! i = CloneArg c \<longrightarrow>
                           (\<exists>a'. c = Some a' \<and> cell (heap s1) a' = Some (vs ! i)))
                     \<and> (\<forall>x. vargs ! i = MoveArg x \<longrightarrow>
                           (\<exists>b. vars s x = Some b \<and> cell (heap s1) b = Some (vs ! i))))"
    by blast
qed

text \<open>
  The three functions on the example memory with one argument by copy and one by move.
\<close>

theorem move_and_clone_intake_witness:
  "args_ok ex_state ex_args
   \<and> PrtSend send_call ex_sender_state (ex_inst 2) (EventValue 1) ex_args ex_state
       = Inr (ex_sender_state, ex_inst 2, EventValue 1, Some 4, ex_after (PrtType 2))
   \<and> PrtMkMachine mk_call 3 ex_args ex_state
       = Inr ((3, 0, Some 4, ex_after (PrtType 7)),
              (ex_after (PrtType 7))\<lparr>heap := (heap (ex_after (PrtType 7)))[4 := None]\<rparr>)
   \<and> PrtMkSymbolicMachine mk_call (ex_inst 2) 3 ex_args ex_state
       = Inr ((9, 5, Some 4, ex_after (PrtType 7)),
              (ex_after (PrtType 7))\<lparr>heap := (heap (ex_after (PrtType 7)))[4 := None]\<rparr>)
   \<and> (\<exists>p s1 s2. PrtMkMachine mk_call 3 ex_args ex_state = Inr ((3, 0, p, s1), s2))
   \<and> (\<exists>p s1 s2. PrtMkSymbolicMachine mk_call (ex_inst 2) 3 ex_args ex_state = Inr ((9, 5, p, s1), s2))
   \<and> vars ex_state 1 = Some 1
   \<and> vars (ex_after (PrtType 2)) 1 = None \<and> vars (ex_after (PrtType 7)) 1 = None
   \<and> vars (ex_after (PrtType 7)) 0 = vars ex_state 0
   \<and> cell (heap (ex_after (PrtType 7))) 0 = cell (heap ex_state) 0
   \<and> length (heap (ex_after (PrtType 7))) = length (heap ex_state) + 1 + 1"
proof -
  have ok: "args_ok ex_state ex_args"
    by (simp add: args_ok_def cell_def ex_args_def ex_state_def)
  have e1: "PrtSend send_call ex_sender_state (ex_inst 2) (EventValue 1) ex_args ex_state
     = Inr (ex_sender_state, ex_inst 2, EventValue 1, Some 4, ex_after (PrtType 2))"
    by (simp add: ex_defs op_defs)
  have e2: "PrtMkMachine mk_call 3 ex_args ex_state
     = Inr ((3, 0, Some 4, ex_after (PrtType 7)),
            (ex_after (PrtType 7))\<lparr>heap := (heap (ex_after (PrtType 7)))[4 := None]\<rparr>)"
    by (simp add: ex_defs op_defs)
  have e3: "PrtMkSymbolicMachine mk_call (ex_inst 2) 3 ex_args ex_state
     = Inr ((9, 5, Some 4, ex_after (PrtType 7)),
            (ex_after (PrtType 7))\<lparr>heap := (heap (ex_after (PrtType 7)))[4 := None]\<rparr>)"
    by (simp add: ex_defs op_defs)
  have t0: "program (proc ex_state) = ex_program" "machineDefMap ex_program 3 = 0"
    "symbolicName (ex_inst 2) = 2" "linkMap ex_program 2 3 = 9" "machineDefMap ex_program 9 = 5"
    by (simp_all add: ex_defs)
  have tM: "1 < length ex_args \<longrightarrow>
      (\<exists>ty. entry_payload_type (machineDefMap (program (proc ex_state)) 3) (program (proc ex_state))
              = Inr (Some ty))"
    by (simp add: ex_defs entry_payload_type_def nMachines_def)
  have tY: "1 < length ex_args \<longrightarrow>
      (\<exists>ty. entry_payload_type
               (machineDefMap (program (proc ex_state))
                  (linkMap (program (proc ex_state)) (symbolicName (ex_inst 2)) 3))
               (program (proc ex_state)) = Inr (Some ty))"
    by (simp add: ex_defs entry_payload_type_def nMachines_def)
  note B = move_and_clone_intake [where s = ex_state and vargs = ex_args and name = 3 and creator = "ex_inst 2"
      and k = 3, THEN conjunct1, THEN mp, OF ok]
  have x2: "\<exists>p s1 s2. PrtMkMachine mk_call 3 ex_args ex_state = Inr ((3, 0, p, s1), s2)"
    using B [THEN conjunct2, THEN conjunct1, THEN mp, OF tM] t0 by simp
  have x3: "\<exists>p s1 s2. PrtMkSymbolicMachine mk_call (ex_inst 2) 3 ex_args ex_state
              = Inr ((9, 5, p, s1), s2)"
    using B [THEN conjunct2, THEN conjunct2, THEN mp, OF tY] t0 by simp
  note A1 = move_and_clone_intake [THEN conjunct2, THEN mp, OF disjI1 [OF e1]]
  note A2 = move_and_clone_intake [THEN conjunct2, THEN mp, OF disjI2 [OF disjI1 [OF e2]]]
  note A3 = move_and_clone_intake [THEN conjunct2, THEN mp, OF disjI2 [OF disjI2 [OF e3]]]
  have m: "MoveArg 1 \<in> set ex_args" "MoveArg 0 \<notin> set ex_args" "(0::nat) < length (heap ex_state)"
    "length (filter (\<lambda>v. argStatus v = PRT_FUN_PARAM_CLONE) ex_args) = 1" "length ex_args \<noteq> 1"
    by (simp_all add: ex_args_def ex_state_def)
  have a1: "vars (ex_after (PrtType 2)) 1 = None"
    using A1 [THEN conjunct1] m by blast
  have a2: "vars (ex_after (PrtType 7)) 1 = None"
    using A2 [THEN conjunct1] m by blast
  have a3: "vars (ex_after (PrtType 7)) 0 = vars ex_state 0"
    using A3 [THEN conjunct2, THEN conjunct1] m by blast
  have a4: "cell (heap (ex_after (PrtType 7))) 0 = cell (heap ex_state) 0"
    using A2 [THEN conjunct2, THEN conjunct2, THEN conjunct1] m by blast
  have a5: "length (heap (ex_after (PrtType 7))) = length (heap ex_state) + 1 + 1"
    using A3 [THEN conjunct2, THEN conjunct2, THEN conjunct2, THEN conjunct1] m by simp
  have a6: "vars ex_state 1 = Some 1" by (simp add: ex_state_def)
  show ?thesis
    using ok e1 e2 e3 x2 x3 a1 a2 a3 a4 a5 a6 by (intro conjI)
qed

lemma entry_payload_type_Some:
  "entry_payload_type i prog = Inr (Some ty) \<Longrightarrow>
     i < nMachines prog
     \<and> initStateIndex (machines prog ! i) < length (states (machines prog ! i))
     \<and> payloadType (entryFun (states (machines prog ! i) ! initStateIndex (machines prog ! i))) = Some ty"
  by (auto simp: entry_payload_type_def Let_def split: if_splits)

lemma PrtGetPayloadType_Some:
  "PrtGetPayloadType prog r ev = Inr (Some ty) \<Longrightarrow>
     \<exists>e. ev = EventValue e \<and> e < nEvents prog \<and> ty = ev_type (events prog ! e)"
  by (auto simp: PrtGetPayloadType_def split: PRT_VALUE.splits if_splits)

lemma entry_payload_type_ok:
  "i < nMachines prog \<Longrightarrow>
   initStateIndex (machines prog ! i) < length (states (machines prog ! i)) \<Longrightarrow>
   payloadType (entryFun (states (machines prog ! i) ! initStateIndex (machines prog ! i))) = Some ty \<Longrightarrow>
   entry_payload_type i prog = Inr (Some ty)"
  by (simp add: entry_payload_type_def Let_def)

lemma PrtGetPayloadType_ok:
  "e < nEvents prog \<Longrightarrow> PrtGetPayloadType prog r (EventValue e) = Inr (Some (ev_type (events prog ! e)))"
  by (simp add: PrtGetPayloadType_def)

lemma tuple_facts:
  assumes mp: "make_payload fn gt vargs s = Inr (p, s1)" and many: "1 < length vargs"
  shows "\<exists>ty b vs. gt (program (proc s)) = Inr (Some ty) \<and> p = Some b \<and> cell (heap s) b = None
           \<and> cell (heap s1) b = Some (TupleValue ty vs) \<and> length vs = length vargs
           \<and> (\<forall>n < length vargs.
                 (\<forall>c. vargs ! n = CloneArg c \<longrightarrow>
                       (\<exists>a'. c = Some a' \<and> cell (heap s1) a' = Some (vs ! n)))
                 \<and> (\<forall>y. vargs ! n = MoveArg y \<longrightarrow>
                       (\<exists>b'. vars s y = Some b' \<and> cell (heap s1) b' = Some (vs ! n))))"
proof -
  from make_payload_tuple [OF mp many] obtain ty b vs where
    t: "gt (program (proc s)) = Inr (Some ty)" "p = Some b" "cell (heap s) b = None"
       "cell (heap s1) b = Some (TupleValue ty vs)" "length vs = length vargs"
    and e: "\<forall>i < length vargs.
                 case vargs ! i of
                   CloneArg c \<Rightarrow> (\<exists>a'. c = Some a' \<and> cell (heap s1) a' = Some (vs ! i))
                 | SwapArg \<Rightarrow> False
                 | MoveArg x \<Rightarrow> (\<exists>b. vars s x = Some b \<and> cell (heap s1) b = Some (vs ! i))"
    by blast
  have "\<forall>n < length vargs.
                 (\<forall>c. vargs ! n = CloneArg c \<longrightarrow>
                       (\<exists>a'. c = Some a' \<and> cell (heap s1) a' = Some (vs ! n)))
                 \<and> (\<forall>y. vargs ! n = MoveArg y \<longrightarrow>
                       (\<exists>b'. vars s y = Some b' \<and> cell (heap s1) b' = Some (vs ! n)))"
    using e by (auto split: fun_arg.splits)
  with t show ?thesis by blast
qed

text \<open>
  Claim C2. \<^verbatim>\<open>PrtSend\<close> with one argument calls \<^verbatim>\<open>PrtSendPrivate\<close> with the collected
  value itself: the pointer taken from the variable for a move, the new copy for a clone.
  With more than one argument the payload is a new tuple whose type is the type the
  program declares for the event, and whose element \<open>n\<close> is the value collected for
  argument \<open>n\<close>: the content of the value passed by copy, or of the value the moved
  variable pointed to; the values that existed before are unchanged. For
  \<^verbatim>\<open>PrtMkMachine\<close> and \<^verbatim>\<open>PrtMkSymbolicMachine\<close> the tuple is the same, with the payload
  type of the entry function of the initial state of the machine declaration. For a
  well-formed list of more than one argument, a declared event and a machine declaration
  whose entry function has a payload type, the three calls are reached.
\<close>

theorem payload_single_or_typed_tuple:
  "PrtSend SP ss r ev [MoveArg x] s = SP ss r ev (vars s x) (s\<lparr>vars := (vars s)(x := None)\<rparr>)
   \<and> (cell (heap s) a = Some v \<longrightarrow>
        PrtSend SP ss r ev [CloneArg (Some a)] s
          = SP ss r ev (Some (length (heap s))) (s\<lparr>heap := heap s @ [Some v]\<rparr>))
   \<and> (1 < length vargs \<and> PrtSend send_call ss r ev vargs s = Inr (ss', r', ev', p, s1) \<longrightarrow>
        (\<exists>e b vs. ev = EventValue e \<and> e < nEvents (program (proc s)) \<and> p = Some b
           \<and> cell (heap s) b = None
           \<and> cell (heap s1) b = Some (TupleValue (ev_type (events (program (proc s)) ! e)) vs)
           \<and> length vs = length vargs
           \<and> (\<forall>n < length vargs.
                 (\<forall>c. vargs ! n = CloneArg c \<longrightarrow>
                       (\<exists>a'. c = Some a' \<and> cell (heap s1) a' = Some (vs ! n)))
                 \<and> (\<forall>y. vargs ! n = MoveArg y \<longrightarrow>
                       (\<exists>b'. vars s y = Some b' \<and> cell (heap s1) b' = Some (vs ! n))))
           \<and> (\<forall>a' < length (heap s). cell (heap s1) a' = cell (heap s) a')))
   \<and> (1 < length vargs \<and> PrtMkMachine mk_call name vargs s = Inr ((q, i, p, s1), s2) \<longrightarrow>
        (\<exists>b ty vs. q = name \<and> i = machineDefMap (program (proc s)) name
           \<and> i < nMachines (program (proc s))
           \<and> payloadType (entryFun (states (machines (program (proc s)) ! i)
                                      ! initStateIndex (machines (program (proc s)) ! i))) = Some ty
           \<and> p = Some b \<and> cell (heap s) b = None
           \<and> cell (heap s1) b = Some (TupleValue ty vs) \<and> length vs = length vargs
           \<and> (\<forall>n < length vargs.
                 (\<forall>c. vargs ! n = CloneArg c \<longrightarrow>
                       (\<exists>a'. c = Some a' \<and> cell (heap s1) a' = Some (vs ! n)))
                 \<and> (\<forall>y. vargs ! n = MoveArg y \<longrightarrow>
                       (\<exists>b'. vars s y = Some b' \<and> cell (heap s1) b' = Some (vs ! n))))
           \<and> (\<forall>a' < length (heap s). cell (heap s1) a' = cell (heap s) a')))
   \<and> (1 < length vargs \<and> PrtMkSymbolicMachine mk_call creator k vargs s = Inr ((q, i, p, s1), s2) \<longrightarrow>
        (\<exists>b ty vs. q = linkMap (program (proc s)) (symbolicName creator) k
           \<and> i = machineDefMap (program (proc s)) q
           \<and> i < nMachines (program (proc s))
           \<and> payloadType (entryFun (states (machines (program (proc s)) ! i)
                                      ! initStateIndex (machines (program (proc s)) ! i))) = Some ty
           \<and> p = Some b \<and> cell (heap s) b = None
           \<and> cell (heap s1) b = Some (TupleValue ty vs) \<and> length vs = length vargs
           \<and> (\<forall>n < length vargs.
                 (\<forall>c. vargs ! n = CloneArg c \<longrightarrow>
                       (\<exists>a'. c = Some a' \<and> cell (heap s1) a' = Some (vs ! n)))
                 \<and> (\<forall>y. vargs ! n = MoveArg y \<longrightarrow>
                       (\<exists>b'. vars s y = Some b' \<and> cell (heap s1) b' = Some (vs ! n))))
           \<and> (\<forall>a' < length (heap s). cell (heap s1) a' = cell (heap s) a')))
   \<and> (args_ok s vargs \<and> 1 < length vargs \<longrightarrow>
        (\<forall>e. ev = EventValue e \<and> e < nEvents (program (proc s)) \<longrightarrow>
           (\<exists>p s1. PrtSend send_call ss r ev vargs s = Inr (ss, r, ev, p, s1)))
        \<and> (\<forall>ty. machineDefMap (program (proc s)) name < nMachines (program (proc s))
              \<and> initStateIndex (machines (program (proc s)) ! machineDefMap (program (proc s)) name)
                  < length (states (machines (program (proc s)) ! machineDefMap (program (proc s)) name))
              \<and> payloadType (entryFun (states (machines (program (proc s))
                                                 ! machineDefMap (program (proc s)) name)
                    ! initStateIndex (machines (program (proc s))
                                        ! machineDefMap (program (proc s)) name))) = Some ty \<longrightarrow>
           (\<exists>p s1 s2. PrtMkMachine mk_call name vargs s
                        = Inr ((name, machineDefMap (program (proc s)) name, p, s1), s2)))
        \<and> (\<forall>ty j. j = machineDefMap (program (proc s))
                        (linkMap (program (proc s)) (symbolicName creator) k)
              \<and> j < nMachines (program (proc s))
              \<and> initStateIndex (machines (program (proc s)) ! j)
                  < length (states (machines (program (proc s)) ! j))
              \<and> payloadType (entryFun (states (machines (program (proc s)) ! j)
                    ! initStateIndex (machines (program (proc s)) ! j))) = Some ty \<longrightarrow>
           (\<exists>p s1 s2. PrtMkSymbolicMachine mk_call creator k vargs s
                        = Inr ((linkMap (program (proc s)) (symbolicName creator) k, j, p, s1), s2))))"
proof (intro conjI impI allI)
  show "PrtSend SP ss r ev [MoveArg x] s = SP ss r ev (vars s x) (s\<lparr>vars := (vars s)(x := None)\<rparr>)"
    by (simp add: PrtSend_payload make_payload_Move)
next
  assume "cell (heap s) a = Some v"
  then show "PrtSend SP ss r ev [CloneArg (Some a)] s
          = SP ss r ev (Some (length (heap s))) (s\<lparr>heap := heap s @ [Some v]\<rparr>)"
    by (simp add: PrtSend_payload make_payload_Clone)
next
  assume h: "1 < length vargs \<and> PrtSend send_call ss r ev vargs s = Inr (ss', r', ev', p, s1)"
  have mp: "make_payload ''PrtSend'' (\<lambda>prog. PrtGetPayloadType prog r ev) vargs s = Inr (p, s1)"
    by (rule send_call_reaches [OF conjunct2 [OF h]])
  from tuple_facts [OF mp conjunct1 [OF h]] obtain ty b vs where
    t: "PrtGetPayloadType (program (proc s)) r ev = Inr (Some ty)" "p = Some b"
       "cell (heap s) b = None" "cell (heap s1) b = Some (TupleValue ty vs)"
       "length vs = length vargs"
       "\<forall>n < length vargs.
                 (\<forall>c. vargs ! n = CloneArg c \<longrightarrow>
                       (\<exists>a'. c = Some a' \<and> cell (heap s1) a' = Some (vs ! n)))
                 \<and> (\<forall>y. vargs ! n = MoveArg y \<longrightarrow>
                       (\<exists>b'. vars s y = Some b' \<and> cell (heap s1) b' = Some (vs ! n)))" by blast
  from PrtGetPayloadType_Some [OF t(1)] obtain e where
    e: "ev = EventValue e" "e < nEvents (program (proc s))" "ty = ev_type (events (program (proc s)) ! e)"
    by blast
  have old: "\<forall>a' < length (heap s). cell (heap s1) a' = cell (heap s) a'"
    using make_payload_old_cells [OF mp] by blast
  show "\<exists>e b vs. ev = EventValue e \<and> e < nEvents (program (proc s)) \<and> p = Some b
           \<and> cell (heap s) b = None
           \<and> cell (heap s1) b = Some (TupleValue (ev_type (events (program (proc s)) ! e)) vs)
           \<and> length vs = length vargs
           \<and> (\<forall>n < length vargs.
                 (\<forall>c. vargs ! n = CloneArg c \<longrightarrow>
                       (\<exists>a'. c = Some a' \<and> cell (heap s1) a' = Some (vs ! n)))
                 \<and> (\<forall>y. vargs ! n = MoveArg y \<longrightarrow>
                       (\<exists>b'. vars s y = Some b' \<and> cell (heap s1) b' = Some (vs ! n))))
           \<and> (\<forall>a' < length (heap s). cell (heap s1) a' = cell (heap s) a')"
    using t(2-6) e old by blast
next
  assume h: "1 < length vargs \<and> PrtMkMachine mk_call name vargs s = Inr ((q, i, p, s1), s2)"
  from mk_call_reaches [OF conjunct2 [OF h]] have q: "q = name"
    and i: "i = machineDefMap (program (proc s)) name"
    and mp: "make_payload ''PrtMkMachine'' (entry_payload_type i) vargs s = Inr (p, s1)"
    by auto
  from tuple_facts [OF mp conjunct1 [OF h]] obtain ty b vs where
    t: "entry_payload_type i (program (proc s)) = Inr (Some ty)" "p = Some b"
       "cell (heap s) b = None" "cell (heap s1) b = Some (TupleValue ty vs)"
       "length vs = length vargs"
       "\<forall>n < length vargs.
                 (\<forall>c. vargs ! n = CloneArg c \<longrightarrow>
                       (\<exists>a'. c = Some a' \<and> cell (heap s1) a' = Some (vs ! n)))
                 \<and> (\<forall>y. vargs ! n = MoveArg y \<longrightarrow>
                       (\<exists>b'. vars s y = Some b' \<and> cell (heap s1) b' = Some (vs ! n)))" by blast
  have old: "\<forall>a' < length (heap s). cell (heap s1) a' = cell (heap s) a'"
    using make_payload_old_cells [OF mp] by blast
  from entry_payload_type_Some [OF t(1)] t(2-6) q i old
  show "\<exists>b ty vs. q = name \<and> i = machineDefMap (program (proc s)) name
           \<and> i < nMachines (program (proc s))
           \<and> payloadType (entryFun (states (machines (program (proc s)) ! i)
                                      ! initStateIndex (machines (program (proc s)) ! i))) = Some ty
           \<and> p = Some b \<and> cell (heap s) b = None
           \<and> cell (heap s1) b = Some (TupleValue ty vs) \<and> length vs = length vargs
           \<and> (\<forall>n < length vargs.
                 (\<forall>c. vargs ! n = CloneArg c \<longrightarrow>
                       (\<exists>a'. c = Some a' \<and> cell (heap s1) a' = Some (vs ! n)))
                 \<and> (\<forall>y. vargs ! n = MoveArg y \<longrightarrow>
                       (\<exists>b'. vars s y = Some b' \<and> cell (heap s1) b' = Some (vs ! n))))
           \<and> (\<forall>a' < length (heap s). cell (heap s1) a' = cell (heap s) a')"
    by blast
next
  assume h: "1 < length vargs \<and> PrtMkSymbolicMachine mk_call creator k vargs s = Inr ((q, i, p, s1), s2)"
  from mk_symbolic_call_reaches [OF conjunct2 [OF h]]
  have q: "q = linkMap (program (proc s)) (symbolicName creator) k"
    and i: "i = machineDefMap (program (proc s)) q"
    and mp: "make_payload ''PrtMkSymbolicMachine'' (entry_payload_type i) vargs s = Inr (p, s1)"
    by auto
  from tuple_facts [OF mp conjunct1 [OF h]] obtain ty b vs where
    t: "entry_payload_type i (program (proc s)) = Inr (Some ty)" "p = Some b"
       "cell (heap s) b = None" "cell (heap s1) b = Some (TupleValue ty vs)"
       "length vs = length vargs"
       "\<forall>n < length vargs.
                 (\<forall>c. vargs ! n = CloneArg c \<longrightarrow>
                       (\<exists>a'. c = Some a' \<and> cell (heap s1) a' = Some (vs ! n)))
                 \<and> (\<forall>y. vargs ! n = MoveArg y \<longrightarrow>
                       (\<exists>b'. vars s y = Some b' \<and> cell (heap s1) b' = Some (vs ! n)))" by blast
  have old: "\<forall>a' < length (heap s). cell (heap s1) a' = cell (heap s) a'"
    using make_payload_old_cells [OF mp] by blast
  from entry_payload_type_Some [OF t(1)] t(2-6) q i old
  show "\<exists>b ty vs. q = linkMap (program (proc s)) (symbolicName creator) k
           \<and> i = machineDefMap (program (proc s)) q
           \<and> i < nMachines (program (proc s))
           \<and> payloadType (entryFun (states (machines (program (proc s)) ! i)
                                      ! initStateIndex (machines (program (proc s)) ! i))) = Some ty
           \<and> p = Some b \<and> cell (heap s) b = None
           \<and> cell (heap s1) b = Some (TupleValue ty vs) \<and> length vs = length vargs
           \<and> (\<forall>n < length vargs.
                 (\<forall>c. vargs ! n = CloneArg c \<longrightarrow>
                       (\<exists>a'. c = Some a' \<and> cell (heap s1) a' = Some (vs ! n)))
                 \<and> (\<forall>y. vargs ! n = MoveArg y \<longrightarrow>
                       (\<exists>b'. vars s y = Some b' \<and> cell (heap s1) b' = Some (vs ! n))))
           \<and> (\<forall>a' < length (heap s). cell (heap s1) a' = cell (heap s) a')"
    by blast
next
  fix e
  assume ok: "args_ok s vargs \<and> 1 < length vargs"
    and e: "ev = EventValue e \<and> e < nEvents (program (proc s))"
  then have "\<exists>ty. PrtGetPayloadType (program (proc s)) r ev = Inr (Some ty)"
    by (simp add: PrtGetPayloadType_ok)
  with ok show "\<exists>p s1. PrtSend send_call ss r ev vargs s = Inr (ss, r, ev, p, s1)"
    by (intro send_call_succeeds) auto
next
  fix ty
  let ?i = "machineDefMap (program (proc s)) name"
  assume ok: "args_ok s vargs \<and> 1 < length vargs"
    and t: "?i < nMachines (program (proc s))
              \<and> initStateIndex (machines (program (proc s)) ! ?i)
                  < length (states (machines (program (proc s)) ! ?i))
              \<and> payloadType (entryFun (states (machines (program (proc s)) ! ?i)
                    ! initStateIndex (machines (program (proc s)) ! ?i))) = Some ty"
  then have "entry_payload_type ?i (program (proc s)) = Inr (Some ty)"
    by (simp add: entry_payload_type_ok)
  with ok show "\<exists>p s1 s2. PrtMkMachine mk_call name vargs s = Inr ((name, ?i, p, s1), s2)"
    by (intro mk_call_succeeds) auto
next
  fix ty j
  let ?q = "linkMap (program (proc s)) (symbolicName creator) k"
  assume ok: "args_ok s vargs \<and> 1 < length vargs"
    and t: "j = machineDefMap (program (proc s)) ?q
              \<and> j < nMachines (program (proc s))
              \<and> initStateIndex (machines (program (proc s)) ! j)
                  < length (states (machines (program (proc s)) ! j))
              \<and> payloadType (entryFun (states (machines (program (proc s)) ! j)
                    ! initStateIndex (machines (program (proc s)) ! j))) = Some ty"
  from t have "entry_payload_type j (program (proc s)) = Inr (Some ty)"
    by (intro entry_payload_type_ok) auto
  with t have "entry_payload_type (machineDefMap (program (proc s)) ?q) (program (proc s)) = Inr (Some ty)"
    by simp
  then have "\<exists>p s1 s2. PrtMkSymbolicMachine mk_call creator k vargs s
               = Inr ((?q, machineDefMap (program (proc s)) ?q, p, s1), s2)"
    using ok by (intro mk_symbolic_call_succeeds) auto
  with t show "\<exists>p s1 s2. PrtMkSymbolicMachine mk_call creator k vargs s = Inr ((?q, j, p, s1), s2)"
    by simp
qed

text \<open>
  The event PONG declares the payload type 2, the entry function of the initial state the
  payload type 7; the tuple holds the copied integer and the moved boolean, in this order.
\<close>

theorem payload_single_or_typed_tuple_witness:
  "PrtSend send_call ex_sender_state (ex_inst 2) (EventValue 1) ex_args ex_state
     = Inr (ex_sender_state, ex_inst 2, EventValue 1, Some 4, ex_after (PrtType 2))
   \<and> ev_type (events ex_program ! 1) = PrtType 2
   \<and> (\<exists>vs. cell (heap (ex_after (PrtType 2))) 4 = Some (TupleValue (PrtType 2) vs)
            \<and> length vs = 2 \<and> vs ! 0 = IntValue 42 \<and> vs ! 1 = BoolValue True)
   \<and> PrtMkMachine mk_call 3 ex_args ex_state
     = Inr ((3, 0, Some 4, ex_after (PrtType 7)),
            (ex_after (PrtType 7))\<lparr>heap := (heap (ex_after (PrtType 7)))[4 := None]\<rparr>)
   \<and> PrtMkSymbolicMachine mk_call (ex_inst 2) 3 ex_args ex_state
     = Inr ((9, 5, Some 4, ex_after (PrtType 7)),
            (ex_after (PrtType 7))\<lparr>heap := (heap (ex_after (PrtType 7)))[4 := None]\<rparr>)
   \<and> payloadType (entryFun (states (machines ex_program ! 5) ! 0)) = Some (PrtType 7)
   \<and> (\<exists>vs. cell (heap (ex_after (PrtType 7))) 4 = Some (TupleValue (PrtType 7) vs)
            \<and> length vs = 2 \<and> vs ! 0 = IntValue 42 \<and> vs ! 1 = BoolValue True)
   \<and> PrtSend send_call ex_sender_state (ex_inst 2) (EventValue 1) [CloneArg (Some 0)] ex_state
     = Inr (ex_sender_state, ex_inst 2, EventValue 1, Some 3,
            ex_state\<lparr>heap := heap ex_state @ [Some (IntValue 42)]\<rparr>)
   \<and> args_ok ex_state ex_args
   \<and> (\<exists>p s1. PrtSend send_call ex_sender_state (ex_inst 2) (EventValue 1) ex_args ex_state
                = Inr (ex_sender_state, ex_inst 2, EventValue 1, p, s1))"
proof -
  have len: "1 < length ex_args" by (simp add: ex_args_def)
  have ok: "args_ok ex_state ex_args"
    by (simp add: args_ok_def cell_def ex_args_def ex_state_def)
  have e1: "PrtSend send_call ex_sender_state (ex_inst 2) (EventValue 1) ex_args ex_state
     = Inr (ex_sender_state, ex_inst 2, EventValue 1, Some 4, ex_after (PrtType 2))"
    by (simp add: ex_defs op_defs)
  have e2: "PrtMkMachine mk_call 3 ex_args ex_state
     = Inr ((3, 0, Some 4, ex_after (PrtType 7)),
            (ex_after (PrtType 7))\<lparr>heap := (heap (ex_after (PrtType 7)))[4 := None]\<rparr>)"
    by (simp add: ex_defs op_defs)
  have e3: "PrtMkSymbolicMachine mk_call (ex_inst 2) 3 ex_args ex_state
     = Inr ((9, 5, Some 4, ex_after (PrtType 7)),
            (ex_after (PrtType 7))\<lparr>heap := (heap (ex_after (PrtType 7)))[4 := None]\<rparr>)"
    by (simp add: ex_defs op_defs)
  have c: "cell (heap ex_state) 0 = Some (IntValue 42)"
    by (simp add: ex_state_def cell_def)
  have t0: "ev_type (events ex_program ! 1) = PrtType 2"
    "payloadType (entryFun (states (machines ex_program ! 5) ! 0)) = Some (PrtType 7)"
    "program (proc ex_state) = ex_program" "initStateIndex (machines ex_program ! 5) = 0"
    "(1::nat) < nEvents ex_program"
    by (simp_all add: ex_defs nEvents_def)
  have v: "ex_args ! 0 = CloneArg (Some 0)" "ex_args ! 1 = MoveArg 1" "length ex_args = 2"
    "vars ex_state 1 = Some 1"
    "cell (heap (ex_after ty)) 0 = Some (IntValue 42)"
    "cell (heap (ex_after ty)) 1 = Some (BoolValue True)" for ty
    by (simp_all add: ex_args_def ex_state_def ex_after_def cell_def)
  have t1: "\<exists>vs. cell (heap (ex_after (PrtType 2))) 4 = Some (TupleValue (PrtType 2) vs)
            \<and> length vs = 2 \<and> vs ! 0 = IntValue 42 \<and> vs ! 1 = BoolValue True"
  proof -
    from payload_single_or_typed_tuple [where SP = send_call,
        THEN conjunct2, THEN conjunct2, THEN conjunct1, THEN mp, OF conjI [OF len e1]]
    obtain e b vs where
      f: "EventValue 1 = EventValue e" "Some 4 = Some b"
         "cell (heap (ex_after (PrtType 2))) b
            = Some (TupleValue (ev_type (events (program (proc ex_state)) ! e)) vs)"
         "length vs = length ex_args"
      and g: "\<forall>n < length ex_args.
                 (\<forall>c. ex_args ! n = CloneArg c \<longrightarrow>
                       (\<exists>a'. c = Some a' \<and> cell (heap (ex_after (PrtType 2))) a' = Some (vs ! n)))
                 \<and> (\<forall>y. ex_args ! n = MoveArg y \<longrightarrow>
                       (\<exists>b'. vars ex_state y = Some b'
                             \<and> cell (heap (ex_after (PrtType 2))) b' = Some (vs ! n)))"
      by blast
    from g [THEN spec, of 0] v have "vs ! 0 = IntValue 42" by auto
    moreover from g [THEN spec, of 1] v have "vs ! 1 = BoolValue True" by auto
    ultimately show ?thesis using f t0 v by auto
  qed
  have t3: "\<exists>vs. cell (heap (ex_after (PrtType 7))) 4 = Some (TupleValue (PrtType 7) vs)
            \<and> length vs = 2 \<and> vs ! 0 = IntValue 42 \<and> vs ! 1 = BoolValue True"
  proof -
    from payload_single_or_typed_tuple [where SP = send_call,
        THEN conjunct2, THEN conjunct2, THEN conjunct2, THEN conjunct2, THEN conjunct1, THEN mp,
        OF conjI [OF len e3]]
    obtain b ty vs where
      f: "Some 4 = Some b"
         "payloadType (entryFun (states (machines (program (proc ex_state)) ! 5)
                 ! initStateIndex (machines (program (proc ex_state)) ! 5))) = Some ty"
         "cell (heap (ex_after (PrtType 7))) b = Some (TupleValue ty vs)"
         "length vs = length ex_args"
      and g: "\<forall>n < length ex_args.
                 (\<forall>c. ex_args ! n = CloneArg c \<longrightarrow>
                       (\<exists>a'. c = Some a' \<and> cell (heap (ex_after (PrtType 7))) a' = Some (vs ! n)))
                 \<and> (\<forall>y. ex_args ! n = MoveArg y \<longrightarrow>
                       (\<exists>b'. vars ex_state y = Some b'
                             \<and> cell (heap (ex_after (PrtType 7))) b' = Some (vs ! n)))"
      by blast
    from g [THEN spec, of 0] v have "vs ! 0 = IntValue 42" by auto
    moreover from g [THEN spec, of 1] v have "vs ! 1 = BoolValue True" by auto
    ultimately show ?thesis using f t0 v by auto
  qed
  have t4: "PrtSend send_call ex_sender_state (ex_inst 2) (EventValue 1) [CloneArg (Some 0)] ex_state
     = Inr (ex_sender_state, ex_inst 2, EventValue 1, Some 3,
            ex_state\<lparr>heap := heap ex_state @ [Some (IntValue 42)]\<rparr>)"
    using payload_single_or_typed_tuple [where SP = send_call and s = ex_state and a = 0
        and v = "IntValue 42" and ss = ex_sender_state and r = "ex_inst 2" and ev = "EventValue 1",
        THEN conjunct2, THEN conjunct1, THEN mp, OF c]
    by (simp add: send_call_def ex_state_def)
  have t5: "\<exists>p s1. PrtSend send_call ex_sender_state (ex_inst 2) (EventValue 1) ex_args ex_state
                = Inr (ex_sender_state, ex_inst 2, EventValue 1, p, s1)"
    using payload_single_or_typed_tuple [where s = ex_state and vargs = ex_args and ev = "EventValue 1"
        and ss = ex_sender_state and r = "ex_inst 2",
        THEN conjunct2, THEN conjunct2, THEN conjunct2, THEN conjunct2, THEN conjunct2,
        THEN mp, OF conjI [OF ok len], THEN conjunct1, THEN spec, of 1] t0
    by simp
  show ?thesis using e1 e2 e3 t0(1,2) t1 t3 t4 t5 ok by (intro conjI)
qed




end
